theory Spec2Isabelle
  imports Main "HOL-Library.Sublist"
begin

section \<open>JavaScript strings\<close>

text \<open>
  A JavaScript string is a sequence of UTF-16 code units. A code unit is modelled as a
  natural number (below 65536 in every real string); no function below does arithmetic
  that leaves that range on such input. The regular expressions of the program carry no
  \<open>u\<close> flag, so they work on single code units, and so do the models.
  \<open>lit\<close> turns an ASCII literal of the theory into a JavaScript string.
\<close>

type_synonym jschar = nat
type_synonym jsstring = "jschar list"

definition lit :: "string \<Rightarrow> jsstring" where
  "lit s = map of_char s"

text \<open>The character classes \<open>[0-9]\<close>, \<open>[A-Z]\<close>, \<open>[a-z]\<close> and \<open>[a-zA-Z0-9]\<close>.\<close>

definition is_digit :: "jschar \<Rightarrow> bool" where
  "is_digit c = (48 \<le> c \<and> c \<le> 57)"

definition is_upper :: "jschar \<Rightarrow> bool" where
  "is_upper c = (65 \<le> c \<and> c \<le> 90)"

definition is_lower :: "jschar \<Rightarrow> bool" where
  "is_lower c = (97 \<le> c \<and> c \<le> 122)"

definition is_alnum :: "jschar \<Rightarrow> bool" where
  "is_alnum c = (is_lower c \<or> is_upper c \<or> is_digit c)"

text \<open>
  The class \<open>\s\<close> of ECMAScript: TAB, LF, VT, FF, CR, SPACE, NBSP, U+1680,
  U+2000 to U+200A, U+2028, U+2029, U+202F, U+205F, U+3000 and U+FEFF.
\<close>

definition is_space :: "jschar \<Rightarrow> bool" where
  "is_space c = (c \<in> {9, 10, 11, 12, 13, 32, 160, 5760, 8232, 8233, 8239, 8287, 12288, 65279}
                 \<or> (8192 \<le> c \<and> c \<le> 8202))"

text \<open>
  \<open>s.replace(/[C]/g, r)\<close> for a class \<open>C\<close> of single code units: every code unit
  of the class is replaced by the string \<open>r\<close>.
\<close>

definition replace_all :: "(jschar \<Rightarrow> bool) \<Rightarrow> jsstring \<Rightarrow> jsstring \<Rightarrow> jsstring" where
  "replace_all p r s = concat (map (\<lambda>c. if p c then r else [c]) s)"

text \<open>
  \<open>s.replace(/C+/g, r)\<close>: every maximal run of code units of the class is replaced by
  one copy of \<open>r\<close> (the quantifier is greedy and the scan resumes after the match).
\<close>

function replace_runs :: "(jschar \<Rightarrow> bool) \<Rightarrow> jsstring \<Rightarrow> jsstring \<Rightarrow> jsstring" where
  "replace_runs p r [] = []"
| "replace_runs p r (c # cs) =
     (if p c then r @ replace_runs p r (dropWhile p cs) else c # replace_runs p r cs)"
  by pat_completeness auto
termination
  by (relation "measure (\<lambda>(p, r, s). length s)")
     (auto simp: le_imp_less_Suc length_dropWhile_le)

text \<open>
  \<open>s.toLowerCase()\<close>. The letters A to Z are mapped to a to z and every other code unit
  is left as it is. The Unicode case mappings of non-ASCII letters are not modelled: the
  program only looks for the ASCII word \<open>premessa\<close> in the result, or applies the function
  to a string that is ASCII already, and the only non-ASCII characters whose lower case
  contains an ASCII letter are U+212A (k) and U+0130 (i).
\<close>

definition lower_char :: "jschar \<Rightarrow> jschar" where
  "lower_char c = (if is_upper c then c + 32 else c)"

definition toLowerCase :: "jsstring \<Rightarrow> jsstring" where
  "toLowerCase s = map lower_char s"

text \<open>\<open>s.includes(t)\<close>: \<open>t\<close> occurs in \<open>s\<close> as a contiguous substring.\<close>

fun includes_str :: "jsstring \<Rightarrow> jsstring \<Rightarrow> bool" where
  "includes_str [] t = (t = [])"
| "includes_str (c # cs) t = (prefix t (c # cs) \<or> includes_str cs t)"

text \<open>\<open>s.substring(0, n)\<close> for a natural number \<open>n\<close>.\<close>

definition substring0 :: "nat \<Rightarrow> jsstring \<Rightarrow> jsstring" where
  "substring0 n s = take n s"

text \<open>
  \<open>s.padStart(n, fill)\<close>: the fill string is repeated and cut to the missing length and
  put in front; a string that is long enough, or an empty fill, leaves \<open>s\<close> as it is.
\<close>

definition padStart :: "nat \<Rightarrow> jsstring \<Rightarrow> jsstring \<Rightarrow> jsstring" where
  "padStart n fill s =
     (if n \<le> length s \<or> fill = [] then s
      else take (n - length s) (concat (replicate (n - length s) fill)) @ s)"

text \<open>
  \<open>n.toString()\<close> for an integral number: the decimal digits, after a minus sign for a
  negative one. Page numbers are integers (the extraction step numbers the entries
  \<open>index + 1\<close>); fractions, NaN and the exponent notation of numbers from \<open>10^21\<close> on are
  outside the model.
\<close>

fun digits :: "nat \<Rightarrow> jsstring" where
  "digits n = (if n < 10 then [48 + n] else digits (n div 10) @ [48 + n mod 10])"

definition number_toString :: "int \<Rightarrow> jsstring" where
  "number_toString n = (if n < 0 then 45 # digits (nat (- n)) else digits (nat n))"

text \<open>
  \<open>path.join(dir, name)\<close>. Node normalises the result (it removes \<open>.\<close> and doubled
  separators); the model only concatenates, which is enough here since every path of the
  program is built by this one function from the same directory string.
\<close>

definition path_join :: "jsstring \<Rightarrow> jsstring \<Rightarrow> jsstring" where
  "path_join dir name = dir @ lit ''/'' @ name"

section \<open>Data model\<close>

record TocItem =
  docbookId :: jsstring
  title :: jsstring
  pageNum :: int

datatype status = Success | Failed

record DownloadStatus = TocItem +
  status :: status
  fileName :: jsstring
  filePath :: jsstring
  fileExists :: bool
  fileSize :: "nat option"

text \<open>
  \<open>bookNumber\<close> is optional: \<open>downloadPagesAsPDF\<close> writes its optional parameter into
  the manifest. The two interfaces \<open>Metadata\<close> and \<open>OutputReport\<close> share the field names
  \<open>bookNumber\<close> and \<open>totalPages\<close>; the fields of the report carry the prefix \<open>report\<close>.
\<close>

record Metadata =
  bookNumber :: "jsstring option"
  extractedAt :: jsstring
  totalPages :: int
  tableOfContents :: "TocItem list"

record OutputReport =
  reportBookNumber :: "jsstring option"
  checkedAt :: jsstring
  reportTotalPages :: int
  successCount :: int
  failedCount :: int
  downloadStatuses :: "DownloadStatus list"
  failedItems :: "TocItem list"

text \<open>
  \<open>Chapter\<close> of \<open>merge-chapters.ts\<close>; its field \<open>title\<close> is \<open>chapterTitle\<close> here, since
  \<open>title\<close> is the field of \<open>TocItem\<close>.
\<close>

record Chapter =
  chapterNumber :: int
  chapterTitle :: jsstring
  startPage :: int
  endPage :: int
  pages :: "TocItem list"

section \<open>Storage and environment\<close>

text \<open>
  The storage is a map from paths to nodes. A node has the size that \<open>statSync\<close> reports
  (\<open>None\<close> when \<open>statSync\<close> throws) and its content as the program reads it: a directory,
  a file that \<open>JSON.parse\<close> turns into a manifest or into a report, a file that
  \<open>PDFDocument.load\<close> turns into a list of pages, or anything else. A page of a PDF
  document is the empty page that \<open>pdf-lib\<close> makes, or a page with some content, told
  apart by a number. \<open>writable\<close> says whether a write to a path succeeds, and
  \<open>events\<close> is the trace of what the program asked of the browser.
\<close>

datatype pdfpage = Blank_page | Captured_page nat

datatype content =
    Directory
  | Metadata_json Metadata
  | Output_json OutputReport
  | Pdf "pdfpage list"
  | Unreadable

record node =
  stat_size :: "nat option"
  content :: content

datatype event =
    Launch_browser
  | Close_browser
  | Sequential_capture TocItem
  | Concurrent_batch "TocItem list"

record world =
  files :: "jsstring \<Rightarrow> node option"
  writable :: "jsstring \<Rightarrow> bool"
  events :: "event list"

text \<open>
  What the program cannot decide by itself: the clock, the number of bytes that
  \<open>JSON.stringify\<close> and \<open>PDFDocument.save\<close> produce, the working directory, the book
  number that the reader's URL holds (if any), whether the browser starts and the login
  goes through, and the page capture (navigation, extraction and \<open>page.pdf\<close>): the node
  that it writes for an entry of the book with the given number, or \<open>None\<close> when it
  fails.
\<close>

datatype login_outcome = Launch_fails | Login_fails | Login_succeeds

record env =
  now :: jsstring
  bytes_of :: "content \<Rightarrow> nat"
  cwd :: jsstring
  url_book :: "jsstring option"
  login :: login_outcome
  capture :: "jsstring \<Rightarrow> TocItem \<Rightarrow> node option"

datatype error =
    Metadata_not_found jsstring
  | IO_error jsstring
  | Syntax_error
  | Type_error
  | Book_number_unknown
  | Capture_failed TocItem
  | Login_failed
  | Process_exit nat

definition existsSync :: "world \<Rightarrow> jsstring \<Rightarrow> bool" where
  "existsSync w p = (files w p \<noteq> None)"

definition readFileSync :: "world \<Rightarrow> jsstring \<Rightarrow> error + content" where
  "readFileSync w p =
     (case files w p of
        None \<Rightarrow> Inl (IO_error p)
      | Some n \<Rightarrow> (case content n of Directory \<Rightarrow> Inl (IO_error p) | c \<Rightarrow> Inr c))"

text \<open>\<open>statSync(p).size\<close>; \<open>None\<close> when the call throws.\<close>

definition statSync :: "world \<Rightarrow> jsstring \<Rightarrow> nat option" where
  "statSync w p = (case files w p of None \<Rightarrow> None | Some n \<Rightarrow> stat_size n)"

definition put_node :: "world \<Rightarrow> jsstring \<Rightarrow> node \<Rightarrow> error + world" where
  "put_node w p n =
     (if writable w p then Inr (w\<lparr>files := (files w)(p \<mapsto> n)\<rparr>) else Inl (IO_error p))"

definition writeFileSync :: "env \<Rightarrow> world \<Rightarrow> jsstring \<Rightarrow> content \<Rightarrow> error + world" where
  "writeFileSync e w p c = put_node w p \<lparr>stat_size = Some (bytes_of e c), content = c\<rparr>"

definition mkdirSync :: "env \<Rightarrow> world \<Rightarrow> jsstring \<Rightarrow> error + world" where
  "mkdirSync e w p = writeFileSync e w p Directory"

definition log_event :: "event \<Rightarrow> world \<Rightarrow> world" where
  "log_event ev w = w\<lparr>events := events w @ [ev]\<rparr>"

section \<open>Artifact file names\<close>

text \<open>
  The template
  \<^verbatim>\<open>`page_${n.toString().padStart(3, "0")}_${id.replace(/[^a-zA-Z0-9]/g, "_")}.pdf`\<close>
  is written out in \<open>checkDownloadStatus\<close>, in \<open>mergeChapterPages\<close>, in
  \<open>getExpectedFiles\<close> and in \<open>extractAndGeneratePDF\<close>; each occurrence is translated on
  its own.
\<close>

definition checkDownloadStatus_fileName :: "TocItem \<Rightarrow> jsstring" where
  "checkDownloadStatus_fileName tocItem =
     lit ''page_'' @ padStart 3 (lit ''0'') (number_toString (pageNum tocItem)) @ lit ''_''
     @ replace_all (\<lambda>c. \<not> is_alnum c) (lit ''_'') (docbookId tocItem) @ lit ''.pdf''"

definition mergeChapterPages_fileName :: "TocItem \<Rightarrow> jsstring" where
  "mergeChapterPages_fileName page =
     lit ''page_'' @ padStart 3 (lit ''0'') (number_toString (pageNum page)) @ lit ''_''
     @ replace_all (\<lambda>c. \<not> is_alnum c) (lit ''_'') (docbookId page) @ lit ''.pdf''"

definition getExpectedFiles_fileName :: "TocItem \<Rightarrow> jsstring" where
  "getExpectedFiles_fileName item =
     lit ''page_'' @ padStart 3 (lit ''0'') (number_toString (pageNum item)) @ lit ''_''
     @ replace_all (\<lambda>c. \<not> is_alnum c) (lit ''_'') (docbookId item) @ lit ''.pdf''"

definition extractAndGeneratePDF_fileName :: "TocItem \<Rightarrow> jsstring" where
  "extractAndGeneratePDF_fileName tocItem =
     lit ''page_'' @ padStart 3 (lit ''0'') (number_toString (pageNum tocItem)) @ lit ''_''
     @ replace_all (\<lambda>c. \<not> is_alnum c) (lit ''_'') (docbookId tocItem) @ lit ''.pdf''"

text \<open>
  The naming convention in the words of the specification: \<open>page_\<close>, the page number
  zero-padded to three digits, an underscore, the identifier with every code unit outside
  \<open>[a-zA-Z0-9]\<close> replaced by an underscore, and the extension \<open>.pdf\<close>.
\<close>

definition zero_pad3 :: "int \<Rightarrow> jsstring" where
  "zero_pad3 n = replicate (3 - length (number_toString n)) 48 @ number_toString n"

definition sanitize_id :: "jsstring \<Rightarrow> jsstring" where
  "sanitize_id ident = map (\<lambda>c. if is_alnum c then c else 95) ident"

definition artifact_name :: "int \<Rightarrow> jsstring \<Rightarrow> jsstring" where
  "artifact_name n ident =
     [112, 97, 103, 101, 95] @ zero_pad3 n @ [95] @ sanitize_id ident @ [46, 112, 100, 102]"

section \<open>Status reconciliation (check-downloads)\<close>

text \<open>The body of the loop of \<open>checkDownloadStatus\<close> for one entry.\<close>

definition check_entry :: "world \<Rightarrow> jsstring \<Rightarrow> TocItem \<Rightarrow> DownloadStatus" where
  "check_entry w bookDir tocItem =
     (let fileName = checkDownloadStatus_fileName tocItem;
          filePath = path_join bookDir fileName;
          fileExists = existsSync w filePath;
          fileSize = (if fileExists then statSync w filePath else None)
      in \<lparr>docbookId = docbookId tocItem,
          title = title tocItem,
          pageNum = pageNum tocItem,
          status = (if fileExists \<and> (case fileSize of None \<Rightarrow> True | Some n \<Rightarrow> 1000 < n)
                    then Success else Failed),
          fileName = fileName,
          filePath = filePath,
          fileExists = fileExists,
          fileSize = fileSize\<rparr>)"

text \<open>The loop: the statuses and the failed entries, both in the order of the manifest.\<close>

fun check_loop :: "world \<Rightarrow> jsstring \<Rightarrow> TocItem list \<Rightarrow> DownloadStatus list \<times> TocItem list" where
  "check_loop w bookDir [] = ([], [])"
| "check_loop w bookDir (tocItem # rest) =
     (let st = check_entry w bookDir tocItem;
          (statuses, failed) = check_loop w bookDir rest
      in (st # statuses, if status st = Failed then tocItem # failed else failed))"

definition make_report :: "env \<Rightarrow> world \<Rightarrow> jsstring \<Rightarrow> Metadata \<Rightarrow> OutputReport" where
  "make_report e w bookDir metadata =
     (let (statuses, failed) = check_loop w bookDir (tableOfContents metadata)
      in \<lparr>reportBookNumber = bookNumber metadata,
          checkedAt = now e,
          reportTotalPages = totalPages metadata,
          successCount = int (length (filter (\<lambda>s. status s = Success) statuses)),
          failedCount = int (length (filter (\<lambda>s. status s = Failed) statuses)),
          downloadStatuses = statuses,
          failedItems = failed\<rparr>)"

text \<open>
  \<open>checkDownloadStatus\<close> returns the report or the error it throws, and the storage it
  leaves. A file at the manifest's path that does not parse throws a syntax error; one
  that parses to something without a table of contents makes the loop throw a type error.
\<close>

definition checkDownloadStatus :: "env \<Rightarrow> world \<Rightarrow> jsstring \<Rightarrow> (error + OutputReport) \<times> world" where
  "checkDownloadStatus e w bookDir =
     (let metadataPath = path_join bookDir (lit ''metadata.json'')
      in if \<not> existsSync w metadataPath then (Inl (Metadata_not_found metadataPath), w)
         else case readFileSync w metadataPath of
           Inl err \<Rightarrow> (Inl err, w)
         | Inr (Metadata_json metadata) \<Rightarrow>
             (let report = make_report e w bookDir metadata;
                  outputPath = path_join bookDir (lit ''output.json'')
              in case writeFileSync e w outputPath (Output_json report) of
                   Inl err \<Rightarrow> (Inl err, w)
                 | Inr w' \<Rightarrow> (Inr report, w'))
         | Inr (Output_json r) \<Rightarrow> (Inl Type_error, w)
         | Inr c \<Rightarrow> (Inl Syntax_error, w))"

text \<open>
  \<open>getFailedItems\<close>. A file at the report's path that parses to something without
  \<open>failedItems\<close> makes the function return \<open>undefined\<close>, and its only caller throws a type
  error at \<open>failedItems.length\<close>; the model raises that error here.
\<close>

definition getFailedItems :: "env \<Rightarrow> world \<Rightarrow> jsstring \<Rightarrow> (error + TocItem list) \<times> world" where
  "getFailedItems e w bookDir =
     (let outputPath = path_join bookDir (lit ''output.json'')
      in if \<not> existsSync w outputPath then
           (case checkDownloadStatus e w bookDir of
              (Inl err, w') \<Rightarrow> (Inl err, w')
            | (Inr report, w') \<Rightarrow> (Inr (failedItems report), w'))
         else case readFileSync w outputPath of
           Inl err \<Rightarrow> (Inl err, w)
         | Inr (Output_json report) \<Rightarrow> (Inr (failedItems report), w)
         | Inr (Metadata_json m) \<Rightarrow> (Inl Type_error, w)
         | Inr c \<Rightarrow> (Inl Syntax_error, w))"

section \<open>Chapter segmentation (merge-chapters)\<close>

text \<open>
  \<open>titleLower.includes("premessa")\<close> with \<open>titleLower = title.toLowerCase()\<close>.
\<close>

definition isPremessa :: "jsstring \<Rightarrow> bool" where
  "isPremessa t = includes_str (toLowerCase t) (lit ''premessa'')"

text \<open>
  \<open>title.match(/^Capitolo\s+\d+/i)\<close>: the title starts with the word in any mix of
  upper and lower case (without the \<open>u\<close> flag only the ASCII letters match an ASCII
  letter of the pattern), then comes at least one white-space code unit, and the first
  code unit after the white space is a digit.
\<close>

definition isChapterStart :: "jsstring \<Rightarrow> bool" where
  "isChapterStart t =
     (map lower_char (take 8 t) = lit ''capitolo''
      \<and> (case drop 8 t of
            [] \<Rightarrow> False
          | c # cs \<Rightarrow> is_space c
              \<and> (case dropWhile is_space cs of [] \<Rightarrow> False | d # ds \<Rightarrow> is_digit d)))"

text \<open>
  The loop of \<open>identifyChapters\<close>. Its state is the list \<open>chapters\<close>, the variable
  \<open>currentChapter\<close> (\<open>None\<close> for \<open>null\<close>) and the counter \<open>chapterNumber\<close>; \<open>n\<close> is
  \<open>tocItems.length\<close>. An entry that is neither a Premessa nor a chapter start and meets
  no open chapter only produces a warning and leaves the state as it is.
\<close>

definition close_chapter :: "Chapter list \<Rightarrow> Chapter option \<Rightarrow> TocItem \<Rightarrow> Chapter list" where
  "close_chapter chapters currentChapter item =
     (case currentChapter of
        None \<Rightarrow> chapters
      | Some c \<Rightarrow> chapters @ [c\<lparr>endPage := pageNum item - 1\<rparr>])"

fun identify_loop ::
  "int \<Rightarrow> TocItem list \<Rightarrow> Chapter list \<Rightarrow> Chapter option \<Rightarrow> int
     \<Rightarrow> Chapter list \<times> Chapter option" where
  "identify_loop n [] chapters currentChapter num = (chapters, currentChapter)"
| "identify_loop n (item # rest) chapters currentChapter num =
     (if isPremessa (title item) then
        identify_loop n rest
          (close_chapter chapters currentChapter item
             @ [\<lparr>chapterNumber = 0, chapterTitle = title item, startPage = pageNum item,
                 endPage = pageNum item, pages = [item]\<rparr>])
          None num
      else if isChapterStart (title item) then
        identify_loop n rest
          (close_chapter chapters currentChapter item)
          (Some \<lparr>chapterNumber = num + 1, chapterTitle = title item, startPage = pageNum item,
                  endPage = n, pages = [item]\<rparr>)
          (num + 1)
      else (case currentChapter of
              Some c \<Rightarrow> identify_loop n rest chapters (Some (c\<lparr>pages := pages c @ [item]\<rparr>)) num
            | None \<Rightarrow> identify_loop n rest chapters None num))"

text \<open>
  After the loop an open chapter is closed at the page number of the last entry. A
  chapter can only be open when the list has an entry, so \<open>last\<close> is applied to a
  non-empty list.
\<close>

definition identifyChapters :: "TocItem list \<Rightarrow> Chapter list" where
  "identifyChapters tocItems =
     (case identify_loop (int (length tocItems)) tocItems [] None 0 of
        (chapters, None) \<Rightarrow> chapters
      | (chapters, Some c) \<Rightarrow> chapters @ [c\<lparr>endPage := pageNum (last tocItems)\<rparr>])"

section \<open>Chapter merging (merge-chapters)\<close>

text \<open>
  \<open>s.replace(/^_+|_+$/g, "")\<close>: the run of underscores at the start and the run at the
  end are removed. Both functions are written for any class of code units.
\<close>

definition strip_ends :: "(jschar \<Rightarrow> bool) \<Rightarrow> jsstring \<Rightarrow> jsstring" where
  "strip_ends p s = rev (dropWhile p (rev (dropWhile p s)))"

definition sanitizeFileName :: "jsstring \<Rightarrow> jsstring" where
  "sanitizeFileName t =
     substring0 80
       (toLowerCase
         (strip_ends (\<lambda>c. c = 95)
           (replace_runs is_space (lit ''_'')
             (replace_all (\<lambda>c. \<not> (is_alnum c \<or> is_space c \<or> c = 45 \<or> c = 95 \<or> c = 46)) []
               (replace_all (\<lambda>c. c = 39 \<or> c = 96) []
                 (replace_all (\<lambda>c. c = 241) (lit ''n'')
                   (replace_all (\<lambda>c. c = 231) (lit ''c'')
                     (replace_all (\<lambda>c. c \<in> {249, 250, 251, 252}) (lit ''u'')
                       (replace_all (\<lambda>c. c \<in> {242, 243, 244, 245, 246}) (lit ''o'')
                         (replace_all (\<lambda>c. c \<in> {236, 237, 238, 239}) (lit ''i'')
                           (replace_all (\<lambda>c. c \<in> {232, 233, 234, 235}) (lit ''e'')
                             (replace_all (\<lambda>c. c \<in> {224, 225, 226, 227, 228, 229}) (lit ''a'')
                               t))))))))))))"

text \<open>
  The loop of \<open>mergeChapterPages\<close> over \<open>chapter.pages\<close>; \<open>merged\<close> is the list of pages
  of \<open>mergedPdf\<close>. A page whose file is absent is skipped with a warning; a file that
  cannot be read or loaded is skipped by the inner \<open>catch\<close>.
\<close>

fun merge_loop :: "world \<Rightarrow> jsstring \<Rightarrow> TocItem list \<Rightarrow> pdfpage list \<Rightarrow> pdfpage list" where
  "merge_loop w bookDir [] merged = merged"
| "merge_loop w bookDir (page # rest) merged =
     (let fileName = mergeChapterPages_fileName page;
          filePath = path_join bookDir fileName
      in if \<not> existsSync w filePath then merge_loop w bookDir rest merged
         else case readFileSync w filePath of
                Inr (Pdf copiedPages) \<Rightarrow> merge_loop w bookDir rest (merged @ copiedPages)
              | _ \<Rightarrow> merge_loop w bookDir rest merged)"

definition outputFileName :: "Chapter \<Rightarrow> jsstring" where
  "outputFileName chapter =
     (if chapterNumber chapter = 0 then lit ''premessa.pdf''
      else lit ''chapter_'' @ padStart 2 (lit ''0'') (number_toString (chapterNumber chapter))
           @ lit ''_'' @ sanitizeFileName (chapterTitle chapter) @ lit ''.pdf'')"

text \<open>
  \<open>mergedPdf.save()\<close> with the default options of \<open>pdf-lib\<close>: \<open>addDefaultPage\<close> is
  true, so a document without pages is saved with one empty page.
\<close>

definition save_pdf :: "pdfpage list \<Rightarrow> pdfpage list" where
  "save_pdf doc = (if doc = [] then [Blank_page] else doc)"

text \<open>
  The body of the outer \<open>try\<close> of \<open>mergeChapterPages\<close>, and the function itself, whose
  \<open>catch\<close> logs the error and returns.
\<close>

definition mergeChapterPages_try :: "env \<Rightarrow> world \<Rightarrow> jsstring \<Rightarrow> jsstring \<Rightarrow> Chapter \<Rightarrow> error + world" where
  "mergeChapterPages_try e w bookDir processedDir chapter =
     (let mergedPdf = merge_loop w bookDir (pages chapter) [];
          outputPath = path_join processedDir (outputFileName chapter);
          pdfBytes = Pdf (save_pdf mergedPdf)
      in writeFileSync e w outputPath pdfBytes)"

definition mergeChapterPages ::
  "env \<Rightarrow> world \<Rightarrow> jsstring \<Rightarrow> jsstring \<Rightarrow> Chapter \<Rightarrow> (error + unit) \<times> world" where
  "mergeChapterPages e w bookDir processedDir chapter =
     (case mergeChapterPages_try e w bookDir processedDir chapter of
        Inl err \<Rightarrow> (Inr (), w)
      | Inr w' \<Rightarrow> (Inr (), w'))"

fun merge_all :: "env \<Rightarrow> world \<Rightarrow> jsstring \<Rightarrow> jsstring \<Rightarrow> Chapter list \<Rightarrow> (error + unit) \<times> world" where
  "merge_all e w bookDir processedDir [] = (Inr (), w)"
| "merge_all e w bookDir processedDir (chapter # rest) =
     (case mergeChapterPages e w bookDir processedDir chapter of
        (Inl err, w') \<Rightarrow> (Inl err, w')
      | (Inr u, w') \<Rightarrow> merge_all e w' bookDir processedDir rest)"

definition mergeChapterPDFs :: "env \<Rightarrow> world \<Rightarrow> jsstring \<Rightarrow> (error + unit) \<times> world" where
  "mergeChapterPDFs e w bookDir =
     (let metadataPath = path_join bookDir (lit ''metadata.json'')
      in if \<not> existsSync w metadataPath then (Inl (Metadata_not_found metadataPath), w)
         else case readFileSync w metadataPath of
           Inl err \<Rightarrow> (Inl err, w)
         | Inr (Metadata_json metadata) \<Rightarrow>
             (let chapters = identifyChapters (tableOfContents metadata);
                  processedDir = path_join bookDir (lit ''processed'')
              in if \<not> existsSync w processedDir then
                   (case mkdirSync e w processedDir of
                      Inl err \<Rightarrow> (Inl err, w)
                    | Inr w' \<Rightarrow> merge_all e w' bookDir processedDir chapters)
                 else merge_all e w bookDir processedDir chapters)
         | Inr (Output_json r) \<Rightarrow> (Inl Type_error, w)
         | Inr c \<Rightarrow> (Inl Syntax_error, w))"

section \<open>Download coordination (index)\<close>

text \<open>
  The parameter \<open>bookNumber\<close> of the functions of this part is called \<open>bookNo\<close>, since
  \<open>bookNumber\<close> is the field of the manifest.

  \<open>downloadSinglePage\<close>: the capture of one entry on the page that is already open.
  A failure is logged and thrown again.
\<close>

definition downloadSinglePage ::
  "env \<Rightarrow> world \<Rightarrow> TocItem \<Rightarrow> jsstring \<Rightarrow> jsstring \<Rightarrow> (error + unit) \<times> world" where
  "downloadSinglePage e w tocItem bookDir bookNo =
     (let w1 = log_event (Sequential_capture tocItem) w
      in case capture e bookNo tocItem of
           None \<Rightarrow> (Inl (Capture_failed tocItem), w1)
         | Some n \<Rightarrow>
             (case put_node w1 (path_join bookDir (extractAndGeneratePDF_fileName tocItem)) n of
                Inl err \<Rightarrow> (Inl err, w1)
              | Inr w2 \<Rightarrow> (Inr (), w2)))"

text \<open>
  \<open>downloadSinglePageWithNewPage\<close>, together with the opening and closing of the new
  page around it: a failure is logged and not thrown, and \<open>Promise.allSettled\<close> takes
  whatever is left.
\<close>

definition downloadSinglePageWithNewPage ::
  "env \<Rightarrow> jsstring \<Rightarrow> jsstring \<Rightarrow> world \<Rightarrow> TocItem \<Rightarrow> world" where
  "downloadSinglePageWithNewPage e bookDir bookNo w tocItem =
     (case capture e bookNo tocItem of
        None \<Rightarrow> w
      | Some n \<Rightarrow>
          (case put_node w (path_join bookDir (extractAndGeneratePDF_fileName tocItem)) n of
             Inl err \<Rightarrow> w
           | Inr w' \<Rightarrow> w'))"

definition batchSize :: nat where
  "batchSize = 10"

text \<open>\<open>xs.slice(i, j)\<close> for natural numbers \<open>i\<close> and \<open>j\<close>.\<close>

definition slice :: "nat \<Rightarrow> nat \<Rightarrow> 'a list \<Rightarrow> 'a list" where
  "slice i j xs = take (j - i) (drop i xs)"

text \<open>
  The loop of \<open>downloadPagesInBatches\<close> from index \<open>i\<close>. The captures of a batch are
  started together and the loop waits for all of them; the event records the batch, and
  the files of the batch are written in the order of the batch.
\<close>

function batch_loop ::
  "env \<Rightarrow> jsstring \<Rightarrow> jsstring \<Rightarrow> TocItem list \<Rightarrow> nat \<Rightarrow> world \<Rightarrow> world" where
  "batch_loop e bookDir bookNo tocItems i w =
     (if i < length tocItems then
        (let batch = slice i (i + batchSize) tocItems;
             w1 = log_event (Concurrent_batch batch) w;
             w2 = foldl (downloadSinglePageWithNewPage e bookDir bookNo) w1 batch
         in batch_loop e bookDir bookNo tocItems (i + batchSize) w2)
      else w)"
  by pat_completeness auto
termination
  by (relation "measure (\<lambda>(e, bookDir, bookNo, tocItems, i, w). length tocItems - i)")
     (auto simp: batchSize_def)

definition downloadPagesInBatches ::
  "env \<Rightarrow> world \<Rightarrow> TocItem list \<Rightarrow> jsstring \<Rightarrow> jsstring \<Rightarrow> world" where
  "downloadPagesInBatches e w tocItems bookDir bookNo =
     batch_loop e bookDir bookNo tocItems 0 w"

text \<open>An optional string is truthy when it is given and not empty.\<close>

definition truthy :: "jsstring option \<Rightarrow> bool" where
  "truthy s = (case s of None \<Rightarrow> False | Some t \<Rightarrow> t \<noteq> [])"

text \<open>
  The part of \<open>downloadPagesAsPDF\<close> and of \<open>downloadPagesAsPDFForRetry\<close> that captures:
  the first entry alone, then the others in batches. \<open>tocItems[0]\<close> of an empty list is
  \<open>undefined\<close>, and reading its identifier throws a type error.
\<close>

definition download_first_then_batches ::
  "env \<Rightarrow> world \<Rightarrow> TocItem list \<Rightarrow> jsstring \<Rightarrow> jsstring \<Rightarrow> (error + unit) \<times> world" where
  "download_first_then_batches e w tocItems bookDir bookNo =
     (case tocItems of
        [] \<Rightarrow> (Inl Type_error, w)
      | first # others \<Rightarrow>
          (case downloadSinglePage e w first bookDir bookNo of
             (Inl err, w1) \<Rightarrow> (Inl err, w1)
           | (Inr u, w1) \<Rightarrow>
               (if 1 < length tocItems
                then (Inr (), downloadPagesInBatches e w1 (slice 1 (length tocItems) tocItems)
                                bookDir bookNo)
                else (Inr (), w1))))"

definition downloadPagesAsPDFForRetry ::
  "env \<Rightarrow> world \<Rightarrow> TocItem list \<Rightarrow> jsstring \<Rightarrow> jsstring \<Rightarrow> (error + unit) \<times> world" where
  "downloadPagesAsPDFForRetry e w tocItems bookDir bookNo =
     download_first_then_batches e w tocItems bookDir bookNo"

text \<open>
  \<open>downloadPagesAsPDF\<close>: the book number is the parameter or is taken from the URL,
  the directory and the manifest are written, the pages are captured, and the chapters
  are merged; a failure of the merge is logged and not thrown.
\<close>

definition downloadPagesAsPDF ::
  "env \<Rightarrow> world \<Rightarrow> TocItem list \<Rightarrow> jsstring option \<Rightarrow> (error + unit) \<times> world" where
  "downloadPagesAsPDF e w tocItems bookNo =
     (case (if truthy bookNo then bookNo else url_book e) of
        None \<Rightarrow> (Inl Book_number_unknown, w)
      | Some finalBookNumber \<Rightarrow>
          (let bookFolderName = replace_all (\<lambda>c. \<not> is_alnum c) (lit ''_'') finalBookNumber;
               bookDir = path_join (path_join (cwd e) (lit ''downloads'')) bookFolderName;
               metadataPath = path_join bookDir (lit ''metadata.json'');
               metadata = \<lparr>bookNumber = bookNo, extractedAt = now e,
                           totalPages = int (length tocItems), tableOfContents = tocItems\<rparr>
           in case (if \<not> existsSync w bookDir then mkdirSync e w bookDir else Inr w) of
                Inl err \<Rightarrow> (Inl err, w)
              | Inr w1 \<Rightarrow>
                  (case writeFileSync e w1 metadataPath (Metadata_json metadata) of
                     Inl err \<Rightarrow> (Inl err, w1)
                   | Inr w2 \<Rightarrow>
                       (case download_first_then_batches e w2 tocItems bookDir finalBookNumber of
                          (Inl err, w3) \<Rightarrow> (Inl err, w3)
                        | (Inr u, w3) \<Rightarrow> (Inr (), snd (mergeChapterPDFs e w3 bookDir))))))"

section \<open>Retry (index)\<close>

text \<open>
  \<open>loginToPandoraCampus\<close>: when the launch fails nothing has happened; when the login
  fails the browser is closed and the error is thrown again.
\<close>

definition loginToPandoraCampus :: "env \<Rightarrow> world \<Rightarrow> (error + unit) \<times> world" where
  "loginToPandoraCampus e w =
     (case login e of
        Launch_fails \<Rightarrow> (Inl Login_failed, w)
      | Login_fails \<Rightarrow> (Inl Login_failed, log_event Close_browser (log_event Launch_browser w))
      | Login_succeeds \<Rightarrow> (Inr (), log_event Launch_browser w))"

text \<open>
  The reconstruction of the entries to retry. \<open>item?.title || ...\<close> takes the
  placeholder for a missing entry and for an empty title; \<open>item?.pageNum || 0\<close> is the
  page number of the entry, or 0.
\<close>

definition lookup_item ::
  "jsstring \<Rightarrow> jsstring option \<Rightarrow> int option \<Rightarrow> TocItem" where
  "lookup_item ident found_title found_pageNum =
     \<lparr>docbookId = ident,
      title = (if truthy found_title then the found_title
               else lit ''Unknown Title ('' @ ident @ lit '')''),
      pageNum = (case found_pageNum of None \<Rightarrow> 0 | Some n \<Rightarrow> n)\<rparr>"

definition from_statuses :: "DownloadStatus list \<Rightarrow> jsstring list \<Rightarrow> TocItem list" where
  "from_statuses statuses ids =
     map (\<lambda>ident. let item = find (\<lambda>st. docbookId st = ident) statuses
                   in lookup_item ident (map_option title item) (map_option pageNum item)) ids"

definition from_toc :: "TocItem list \<Rightarrow> jsstring list \<Rightarrow> TocItem list" where
  "from_toc toc ids =
     map (\<lambda>ident. let item = find (\<lambda>t. docbookId t = ident) toc
                   in lookup_item ident (map_option title item) (map_option pageNum item)) ids"

definition fake_items :: "jsstring list \<Rightarrow> TocItem list" where
  "fake_items ids =
     map (\<lambda>(index, ident).
            \<lparr>docbookId = ident,
             title = lit ''Retry Page '' @ number_toString (int index + 1),
             pageNum = int index + 1\<rparr>)
         (enumerate 0 ids)"

definition retry_tocItems :: "world \<Rightarrow> jsstring \<Rightarrow> jsstring list \<Rightarrow> TocItem list" where
  "retry_tocItems w bookDir failedDocbookIds =
     (let outputPath = path_join bookDir (lit ''output.json'');
          metadataPath = path_join bookDir (lit ''metadata.json'')
      in if existsSync w outputPath then
           (case readFileSync w outputPath of
              Inr (Output_json outputData) \<Rightarrow>
                from_statuses (downloadStatuses outputData) failedDocbookIds
            | Inr (Metadata_json m) \<Rightarrow> from_statuses [] failedDocbookIds
            | _ \<Rightarrow> fake_items failedDocbookIds)
         else if existsSync w metadataPath then
           (case readFileSync w metadataPath of
              Inr (Metadata_json metadataData) \<Rightarrow>
                from_toc (tableOfContents metadataData) failedDocbookIds
            | Inr (Output_json r) \<Rightarrow> from_toc [] failedDocbookIds
            | _ \<Rightarrow> fake_items failedDocbookIds)
         else fake_items failedDocbookIds)"

text \<open>
  \<open>bookDir.split(/[/\\]/).pop() || ""\<close> with every underscore replaced by a dot.
\<close>

definition inferred_bookNumber :: "jsstring \<Rightarrow> jsstring" where
  "inferred_bookNumber bookDir =
     replace_all (\<lambda>c. c = 95) (lit ''.'')
       (rev (takeWhile (\<lambda>c. c \<noteq> 47 \<and> c \<noteq> 92) (rev bookDir)))"

text \<open>
  \<open>retryFailedDownloads\<close>. Everything after the early return runs inside a \<open>try\<close> whose
  \<open>catch\<close> ends the process with exit code 1.
\<close>

definition retryFailedDownloads ::
  "env \<Rightarrow> world \<Rightarrow> jsstring \<Rightarrow> jsstring option \<Rightarrow> (error + unit) \<times> world" where
  "retryFailedDownloads e w bookDir bookId =
     (case getFailedItems e w bookDir of
        (Inl err, w1) \<Rightarrow> (Inl err, w1)
      | (Inr failed, w1) \<Rightarrow>
          (if length failed = 0 then (Inr (), w1)
           else
             (let failedDocbookIds = map docbookId failed
              in case loginToPandoraCampus e w1 of
                   (Inl err, w2) \<Rightarrow> (Inl (Process_exit 1), w2)
                 | (Inr u, w2) \<Rightarrow>
                     (let tocItems = retry_tocItems w2 bookDir failedDocbookIds;
                          bookNo = (if truthy bookId then the bookId
                                        else inferred_bookNumber bookDir)
                      in case downloadPagesAsPDFForRetry e w2 tocItems bookDir bookNo of
                           (Inl err, w3) \<Rightarrow> (Inl (Process_exit 1), w3)
                         | (Inr u, w3) \<Rightarrow> (Inr (), log_event Close_browser w3)))))"

section \<open>Cleanup\<close>

text \<open>
  \<open>getExpectedFiles\<close>: the two metadata files, and the page files named by the report
  or, without a report, generated from the manifest. Every error of reading is caught,
  and the set collected so far is returned.
\<close>

definition getExpectedFiles :: "world \<Rightarrow> jsstring \<Rightarrow> jsstring set" where
  "getExpectedFiles w bookDir =
     (let expectedFiles = {lit ''output.json'', lit ''metadata.json''};
          outputPath = path_join bookDir (lit ''output.json'');
          metadataPath = path_join bookDir (lit ''metadata.json'')
      in if existsSync w outputPath then
           (case readFileSync w outputPath of
              Inr (Output_json outputData) \<Rightarrow>
                expectedFiles
                \<union> set (filter (\<lambda>f. f \<noteq> []) (map fileName (downloadStatuses outputData)))
            | _ \<Rightarrow> expectedFiles)
         else if existsSync w metadataPath then
           (case readFileSync w metadataPath of
              Inr (Metadata_json metadataData) \<Rightarrow>
                expectedFiles \<union> set (map getExpectedFiles_fileName (tableOfContents metadataData))
            | _ \<Rightarrow> expectedFiles)
         else expectedFiles)"

section \<open>Predicates of the claims\<close>

text \<open>
  Page ranges of a list of chapters that follow one another: every range ends before the
  next one starts, and no range is empty. \<open>open_ok\<close> is the invariant of the loop for the
  chapter that is still open: it starts after every closed range, before every entry
  still to come, and not after \<open>L\<close>.
\<close>

definition ordered_ranges :: "Chapter list \<Rightarrow> bool" where
  "ordered_ranges chs =
     (sorted_wrt (\<lambda>a b. endPage a < startPage b) chs \<and> (\<forall>c \<in> set chs. startPage c \<le> endPage c))"

definition open_ok :: "Chapter list \<Rightarrow> TocItem list \<Rightarrow> int \<Rightarrow> Chapter option \<Rightarrow> bool" where
  "open_ok chs rest L cur =
     (case cur of None \<Rightarrow> True
      | Some c \<Rightarrow> (\<forall>d \<in> set chs. endPage d < startPage c)
                  \<and> (\<forall>t \<in> set rest. startPage c < pageNum t) \<and> startPage c \<le> L)"






definition is_open :: "Chapter option \<Rightarrow> bool" where
  "is_open cur = (case cur of None \<Rightarrow> False | Some c \<Rightarrow> True)"


text \<open>
  For the merge: whether the artifact of a page exists, and the pages that
  \<open>PDFDocument.load\<close> gets from it (none when the file cannot be read or loaded).
\<close>

definition artifact_exists :: "world \<Rightarrow> jsstring \<Rightarrow> TocItem \<Rightarrow> bool" where
  "artifact_exists w bookDir page =
     existsSync w (path_join bookDir (mergeChapterPages_fileName page))"

definition loaded_pages :: "world \<Rightarrow> jsstring \<Rightarrow> TocItem \<Rightarrow> pdfpage list" where
  "loaded_pages w bookDir page =
     (case readFileSync w (path_join bookDir (mergeChapterPages_fileName page)) of
        Inr (Pdf ps) \<Rightarrow> ps
      | _ \<Rightarrow> [])"

text \<open>
  The sanitization of a chapter title in the words of the amended claim C9: the
  lower-case accented letters that the program lists go to their base letters; the
  apostrophe and the back quote are stripped; every code unit outside
  \<open>[A-Za-z0-9_.-]\<close> that is not white space is removed; every run of white space
  (the class \<open>\s\<close>: space, tab, line breaks, no-break space and the other Unicode
  spaces) becomes one underscore; the underscores at both ends are trimmed; the result is
  put in lower case and cut to 80 code units.

  \<open>is_latin_accented\<close> holds of the precomposed Latin letters beyond ASCII: the letters
  of Latin-1 Supplement (U+00C0 to U+00FF without the signs U+00D7 and U+00F7), Latin
  Extended-A and Extended-B (U+0100 to U+024F) and Latin Extended Additional (U+1E00 to
  U+1EFF). These are the accented characters whose base letter would survive the
  removal of the next step. \<open>passes\<close> is what the seven transliterating replacements of
  the program do to one code unit, one after the other.
\<close>

definition is_listed_accent :: "jschar \<Rightarrow> bool" where
  "is_listed_accent c =
     (c \<in> {224, 225, 226, 227, 228, 229, 231, 232, 233, 234, 235, 236, 237, 238, 239, 241,
            242, 243, 244, 245, 246, 249, 250, 251, 252})"

definition is_latin_accented :: "jschar \<Rightarrow> bool" where
  "is_latin_accented c =
     ((192 \<le> c \<and> c \<le> 591 \<and> c \<noteq> 215 \<and> c \<noteq> 247) \<or> (7680 \<le> c \<and> c \<le> 7935))"

definition unlisted_accents :: "jsstring \<Rightarrow> jschar list" where
  "unlisted_accents t = filter (\<lambda>c. is_latin_accented c \<and> \<not> is_listed_accent c) t"

definition base_letter :: "jschar \<Rightarrow> jschar" where
  "base_letter c =
     (if 224 \<le> c \<and> c \<le> 229 then 97
      else if c = 231 then 99
      else if 232 \<le> c \<and> c \<le> 235 then 101
      else if 236 \<le> c \<and> c \<le> 239 then 105
      else if c = 241 then 110
      else if 242 \<le> c \<and> c \<le> 246 then 111
      else if 249 \<le> c \<and> c \<le> 252 then 117
      else c)"

definition is_quote :: "jschar \<Rightarrow> bool" where
  "is_quote c = (c = 39 \<or> c = 96)"

definition is_kept :: "jschar \<Rightarrow> bool" where
  "is_kept c = (is_alnum c \<or> is_space c \<or> c = 95 \<or> c = 46 \<or> c = 45)"

fun collapse :: "bool \<Rightarrow> jsstring \<Rightarrow> jsstring" where
  "collapse in_run [] = []"
| "collapse in_run (c # cs) =
     (if is_space c then (if in_run then collapse True cs else 95 # collapse True cs)
      else c # collapse False cs)"

definition trim_underscores :: "jsstring \<Rightarrow> jsstring" where
  "trim_underscores s = rev (dropWhile (\<lambda>c. c = 95) (rev (dropWhile (\<lambda>c. c = 95) s)))"

definition sanitize_spec :: "jsstring \<Rightarrow> jsstring" where
  "sanitize_spec t =
     take 80 (map lower_char (trim_underscores (collapse False
       (filter is_kept (filter (\<lambda>c. \<not> is_quote c) (map base_letter t))))))"

definition passes :: "jschar \<Rightarrow> jschar" where
  "passes c =
     (let c1 = (if c \<in> {224, 225, 226, 227, 228, 229} then 97 else c);
          c2 = (if c1 \<in> {232, 233, 234, 235} then 101 else c1);
          c3 = (if c2 \<in> {236, 237, 238, 239} then 105 else c2);
          c4 = (if c3 \<in> {242, 243, 244, 245, 246} then 111 else c3);
          c5 = (if c4 \<in> {249, 250, 251, 252} then 117 else c4);
          c6 = (if c5 = 231 then 99 else c5)
      in if c6 = 241 then 110 else c6)"

text \<open>The entries that an event captures.\<close>

definition captures_of :: "event \<Rightarrow> TocItem list" where
  "captures_of ev =
     (case ev of Sequential_capture t \<Rightarrow> [t] | Concurrent_batch b \<Rightarrow> b | _ \<Rightarrow> [])"

section \<open>Example data\<close>

text \<open>
  A book directory with a manifest of three entries, a first artifact of 500 bytes, a
  second one of 52000 bytes and no third one.
\<close>

definition example_dir :: jsstring where
  "example_dir = lit ''downloads/b1''"

definition example_toc :: "TocItem list" where
  "example_toc =
     [\<lparr>docbookId = lit ''_11_1'', title = lit ''Premessa'', pageNum = 1\<rparr>,
      \<lparr>docbookId = lit ''_11_2'', title = lit ''Capitolo 1 Il diritto'', pageNum = 2\<rparr>,
      \<lparr>docbookId = lit ''_11_3'', title = lit ''1. Le fonti'', pageNum = 3\<rparr>]"

definition example_metadata :: Metadata where
  "example_metadata =
     \<lparr>bookNumber = Some (lit ''10.978.8815/415073''),
      extractedAt = lit ''2024-01-01T10:00:00.000Z'',
      totalPages = 3,
      tableOfContents = example_toc\<rparr>"

definition example_world :: world where
  "example_world =
     \<lparr>files = map_of
        [(path_join example_dir (lit ''metadata.json''),
            \<lparr>stat_size = Some 420, content = Metadata_json example_metadata\<rparr>),
         (path_join example_dir (lit ''page_001__11_1.pdf''),
            \<lparr>stat_size = Some 500, content = Pdf [Captured_page 10]\<rparr>),
         (path_join example_dir (lit ''page_002__11_2.pdf''),
            \<lparr>stat_size = Some 52000, content = Pdf [Captured_page 20, Captured_page 21]\<rparr>)],
      writable = (\<lambda>p. True),
      events = []\<rparr>"

definition example_env :: env where
  "example_env =
     \<lparr>now = lit ''2024-01-02T10:00:00.000Z'',
      bytes_of = (\<lambda>c. 2048),
      cwd = lit ''/home/u'',
      url_book = None,
      login = Login_succeeds,
      capture = (\<lambda>b t. Some \<lparr>stat_size = Some 30000, content = Pdf [Captured_page (nat (pageNum t))]\<rparr>)\<rparr>"

text \<open>
  Five entries in the order of the scenario: a Premessa, a chapter start and three plain
  sections; and a table of contents where plain entries come before the Premessa and
  between the Premessa and the first chapter.
\<close>

definition example_toc5 :: "TocItem list" where
  "example_toc5 =
     [\<lparr>docbookId = lit ''_11_1'', title = lit ''Premessa'', pageNum = 1\<rparr>,
      \<lparr>docbookId = lit ''_11_2'', title = lit ''Capitolo 1'', pageNum = 2\<rparr>,
      \<lparr>docbookId = lit ''_11_3'', title = lit ''1. Le fonti'', pageNum = 3\<rparr>,
      \<lparr>docbookId = lit ''_11_4'', title = lit ''2. I soggetti'', pageNum = 4\<rparr>,
      \<lparr>docbookId = lit ''_11_5'', title = lit ''3. Gli atti'', pageNum = 5\<rparr>]"


text \<open>
  The example directory with the second artifact missing, a chapter over the three
  entries, a title with a no-break space, an en dash, a typographic apostrophe, two
  accented letters, a tab and a doubled space, a manifest of
  twelve entries with an empty storage to start from, and a directory whose report has
  no failed entry.
\<close>

definition example_gap :: world where
  "example_gap =
     \<lparr>files = map_of
        [(path_join example_dir (lit ''metadata.json''),
            \<lparr>stat_size = Some 420, content = Metadata_json example_metadata\<rparr>),
         (path_join example_dir (lit ''page_001__11_1.pdf''),
            \<lparr>stat_size = Some 48000, content = Pdf [Captured_page 10]\<rparr>),
         (path_join example_dir (lit ''page_003__11_3.pdf''),
            \<lparr>stat_size = Some 51000, content = Pdf [Captured_page 30]\<rparr>)],
      writable = (\<lambda>p. True),
      events = []\<rparr>"

definition example_chapter :: Chapter where
  "example_chapter =
     \<lparr>chapterNumber = 1, chapterTitle = lit ''Capitolo 1 Il diritto'', startPage = 1,
      endPage = 3, pages = example_toc\<rparr>"

definition example_title :: jsstring where
  "example_title =
     lit ''Capitolo 1'' @ [160, 8211] @ lit '' L'' @ [8217] @ lit ''et'' @ [224] @ [9]
     @ lit ''e  libert'' @ [224]"

definition page_entry :: "int \<Rightarrow> TocItem" where
  "page_entry n =
     \<lparr>docbookId = lit ''_11_'' @ number_toString n,
      title = lit ''Sezione '' @ number_toString n,
      pageNum = n\<rparr>"

definition example_toc12 :: "TocItem list" where
  "example_toc12 = map page_entry [1, 2, 3, 4, 5, 6, 7, 8, 9, 10, 11, 12]"

definition example_start :: world where
  "example_start = \<lparr>files = Map.empty, writable = (\<lambda>p. True), events = []\<rparr>"

definition example_full :: world where
  "example_full =
     \<lparr>files = map_of
        [(path_join example_dir (lit ''metadata.json''),
            \<lparr>stat_size = Some 420, content = Metadata_json example_metadata\<rparr>),
         (path_join example_dir (lit ''output.json''),
            \<lparr>stat_size = Some 2048, content = Output_json
               \<lparr>reportBookNumber = Some (lit ''10.978.8815/415073''),
                checkedAt = lit ''2024-01-02T10:00:00.000Z'',
                reportTotalPages = 3, successCount = 3, failedCount = 0,
                downloadStatuses =
                  map (\<lambda>t. \<lparr>docbookId = docbookId t, title = title t, pageNum = pageNum t,
                             status = Success,
                             fileName = checkDownloadStatus_fileName t,
                             filePath = path_join example_dir (checkDownloadStatus_fileName t),
                             fileExists = True, fileSize = Some 48000\<rparr>) example_toc,
                failedItems = []\<rparr>\<rparr>)],
      writable = (\<lambda>p. True),
      events = []\<rparr>"

section \<open>Properties\<close>

declare digits.simps [simp del]

declare batch_loop.simps [simp del]

subsection \<open>Strings and file names\<close>

lemma lit_simps:
  "lit [] = []"
  "lit (c # cs) = of_char c # lit cs"
  by (simp_all add: lit_def)

lemma replace_all_single: "replace_all p [x] s = map (\<lambda>c. if p c then x else c) s"
  by (induction s) (simp_all add: replace_all_def)

lemma replace_all_empty: "replace_all p [] s = filter (\<lambda>c. \<not> p c) s"
  by (induction s) (simp_all add: replace_all_def)

lemma padStart_zero: "padStart n [z] s = replicate (n - length s) z @ s"
  by (simp add: padStart_def)

text \<open>
  Claim C3. The artifact file name is a function of the page number and the identifier
  alone: \<open>page_\<close>, the page number zero-padded to three digits, an underscore, the
  identifier with every code unit outside \<open>[a-zA-Z0-9]\<close> replaced by an underscore, and
  \<open>.pdf\<close>. The expressions in \<open>checkDownloadStatus\<close>, \<open>mergeChapterPages\<close> and
  \<open>getExpectedFiles\<close> all compute it, so the three are the same function.
\<close>

theorem artifact_name_agreement:
  "checkDownloadStatus_fileName item = artifact_name (pageNum item) (docbookId item)
   \<and> mergeChapterPages_fileName item = artifact_name (pageNum item) (docbookId item)
   \<and> getExpectedFiles_fileName item = artifact_name (pageNum item) (docbookId item)
   \<and> mergeChapterPages_fileName = checkDownloadStatus_fileName
   \<and> getExpectedFiles_fileName = checkDownloadStatus_fileName"
proof -
  have "checkDownloadStatus_fileName item = artifact_name (pageNum item) (docbookId item)"
    by (simp add: checkDownloadStatus_fileName_def artifact_name_def zero_pad3_def
        sanitize_id_def lit_simps replace_all_single padStart_zero)
  moreover have "mergeChapterPages_fileName = checkDownloadStatus_fileName"
    by (rule ext) (simp add: mergeChapterPages_fileName_def checkDownloadStatus_fileName_def)
  moreover have "getExpectedFiles_fileName = checkDownloadStatus_fileName"
    by (rule ext) (simp add: getExpectedFiles_fileName_def checkDownloadStatus_fileName_def)
  ultimately show ?thesis by simp
qed

text \<open>Entry 7 with identifier \<open>_11_9\<close> is \<open>page_007__11_9.pdf\<close> for all three.\<close>

theorem artifact_name_agreement_witness:
  "checkDownloadStatus_fileName \<lparr>docbookId = lit ''_11_9'', title = lit ''Capitolo 1'', pageNum = 7\<rparr>
     = lit ''page_007__11_9.pdf''
   \<and> mergeChapterPages_fileName \<lparr>docbookId = lit ''_11_9'', title = lit ''Capitolo 1'', pageNum = 7\<rparr>
     = lit ''page_007__11_9.pdf''
   \<and> getExpectedFiles_fileName \<lparr>docbookId = lit ''_11_9'', title = lit ''Capitolo 1'', pageNum = 7\<rparr>
     = lit ''page_007__11_9.pdf''"
proof -
  have "artifact_name 7 (lit ''_11_9'') = lit ''page_007__11_9.pdf''"
    by (simp add: artifact_name_def zero_pad3_def sanitize_id_def number_toString_def
        digits.simps lit_simps is_alnum_def is_lower_def is_upper_def is_digit_def
        eval_nat_numeral)
  with artifact_name_agreement
    [of "\<lparr>docbookId = lit ''_11_9'', title = lit ''Capitolo 1'', pageNum = 7\<rparr>"]
  show ?thesis by simp
qed

subsection \<open>Status reconciliation\<close>

lemma check_loop_statuses: "fst (check_loop w d toc) = map (check_entry w d) toc"
  by (induction toc) (simp_all add: Let_def case_prod_beta)

lemma check_loop_failed:
  "snd (check_loop w d toc) = filter (\<lambda>t. status (check_entry w d t) = Failed) toc"
  by (induction toc) (simp_all add: Let_def case_prod_beta)

lemma make_report_statuses:
  "downloadStatuses (make_report e w d m) = map (check_entry w d) (tableOfContents m)"
  by (simp add: make_report_def case_prod_beta check_loop_statuses)

lemma make_report_failed:
  "failedItems (make_report e w d m)
     = filter (\<lambda>t. status (check_entry w d t) = Failed) (tableOfContents m)"
  by (simp add: make_report_def case_prod_beta check_loop_failed)

lemma checkDownloadStatus_Inr:
  assumes "checkDownloadStatus e w d = (Inr report, w')"
  shows "\<exists>m. readFileSync w (path_join d (lit ''metadata.json'')) = Inr (Metadata_json m)
             \<and> report = make_report e w d m"
  using assms
  by (auto simp: checkDownloadStatus_def Let_def split: if_splits sum.splits content.splits)

text \<open>
  The check returns a report whenever the manifest can be read and the report can be
  written.
\<close>

lemma checkDownloadStatus_returns:
  assumes "readFileSync w (path_join d (lit ''metadata.json'')) = Inr (Metadata_json m)"
    and "writable w (path_join d (lit ''output.json''))"
  shows "fst (checkDownloadStatus e w d) = Inr (make_report e w d m)"
proof -
  from assms(1) have "existsSync w (path_join d (lit ''metadata.json''))"
    by (auto simp: readFileSync_def existsSync_def split: option.splits)
  with assms show ?thesis
    by (simp add: checkDownloadStatus_def Let_def writeFileSync_def put_node_def)
qed

lemma check_entry_status:
  "status (check_entry w d t) = Success \<longleftrightarrow>
     existsSync w (path_join d (checkDownloadStatus_fileName t))
     \<and> (statSync w (path_join d (checkDownloadStatus_fileName t)) = None
        \<or> (\<exists>n. statSync w (path_join d (checkDownloadStatus_fileName t)) = Some n \<and> 1000 < n))"
  by (auto simp: check_entry_def Let_def split: option.splits)

text \<open>
  Claim C1. When \<open>checkDownloadStatus\<close> returns a report, the report has one status per
  entry of the manifest's table of contents, in order, and the entry is classified
  \<open>Success\<close> if and only if a file exists at the derived path and either its size could
  not be determined or its size is strictly greater than 1000 bytes. In particular an
  artifact that exists with a size of 500 bytes is classified \<open>Failed\<close> although
  \<open>fileExists\<close> is true.
\<close>

theorem checkDownloadStatus_success_iff:
  assumes "fst (checkDownloadStatus e w bookDir) = Inr report"
  shows "\<exists>metadata.
           readFileSync w (path_join bookDir (lit ''metadata.json'')) = Inr (Metadata_json metadata)
         \<and> length (downloadStatuses report) = length (tableOfContents metadata)
         \<and> (\<forall>i < length (tableOfContents metadata).
               let tocItem = tableOfContents metadata ! i;
                   st = downloadStatuses report ! i;
                   p = path_join bookDir (checkDownloadStatus_fileName tocItem)
               in docbookId st = docbookId tocItem \<and> pageNum st = pageNum tocItem
                  \<and> filePath st = p \<and> fileExists st = existsSync w p
                  \<and> (status st = Success \<longleftrightarrow>
                       existsSync w p
                       \<and> (statSync w p = None \<or> (\<exists>n. statSync w p = Some n \<and> 1000 < n)))
                  \<and> (existsSync w p \<and> statSync w p = Some 500
                       \<longrightarrow> status st = Failed \<and> fileExists st))"
proof -
  from assms obtain w' where "checkDownloadStatus e w bookDir = (Inr report, w')"
    by (cases "checkDownloadStatus e w bookDir") simp
  then obtain m where rd: "readFileSync w (path_join bookDir (lit ''metadata.json'')) = Inr (Metadata_json m)"
    and rep: "report = make_report e w bookDir m"
    using checkDownloadStatus_Inr by blast
  have sts: "downloadStatuses report = map (check_entry w bookDir) (tableOfContents m)"
    by (simp add: rep make_report_statuses)
  have entry: "\<And>t. docbookId (check_entry w bookDir t) = docbookId t
        \<and> pageNum (check_entry w bookDir t) = pageNum t
        \<and> filePath (check_entry w bookDir t) = path_join bookDir (checkDownloadStatus_fileName t)
        \<and> fileExists (check_entry w bookDir t)
            = existsSync w (path_join bookDir (checkDownloadStatus_fileName t))"
    by (simp add: check_entry_def Let_def)
  have small: "\<And>t. existsSync w (path_join bookDir (checkDownloadStatus_fileName t))
        \<and> statSync w (path_join bookDir (checkDownloadStatus_fileName t)) = Some 500
        \<longrightarrow> status (check_entry w bookDir t) = Failed"
    by (simp add: check_entry_def Let_def)
  show ?thesis
    apply (rule exI [of _ m])
    apply (simp only: rd sts length_map Let_def)
    apply (intro conjI allI impI refl)
    apply (simp_all only: nth_map entry check_entry_status small)
    done
qed

text \<open>
  In the example directory the first artifact exists with 500 bytes: the run returns a
  report, and the first entry is \<open>Failed\<close> with \<open>fileExists\<close> true.
\<close>

theorem checkDownloadStatus_success_iff_witness:
  "fst (checkDownloadStatus example_env example_world example_dir)
     = Inr (make_report example_env example_world example_dir example_metadata)
   \<and> status (downloadStatuses
        (make_report example_env example_world example_dir example_metadata) ! 0) = Failed
   \<and> fileExists (downloadStatuses
        (make_report example_env example_world example_dir example_metadata) ! 0)"
proof -
  let ?r = "make_report example_env example_world example_dir example_metadata"
  have rd: "readFileSync example_world (path_join example_dir (lit ''metadata.json''))
              = Inr (Metadata_json example_metadata)"
    by (simp add: readFileSync_def example_world_def)
  have run: "fst (checkDownloadStatus example_env example_world example_dir) = Inr ?r"
    by (simp add: checkDownloadStatus_def Let_def rd existsSync_def writeFileSync_def put_node_def,
        simp add: example_world_def)
  have name: "checkDownloadStatus_fileName (example_toc ! 0) = lit ''page_001__11_1.pdf''"
    by (simp add: example_toc_def checkDownloadStatus_fileName_def padStart_zero
        replace_all_single number_toString_def digits.simps lit_simps is_alnum_def
        is_lower_def is_upper_def is_digit_def eval_nat_numeral)
  have ex: "existsSync example_world (path_join example_dir (lit ''page_001__11_1.pdf''))"
    and sz: "statSync example_world (path_join example_dir (lit ''page_001__11_1.pdf'')) = Some 500"
    by (simp_all add: existsSync_def statSync_def example_world_def path_join_def
        example_dir_def lit_simps)
  from checkDownloadStatus_success_iff [OF run] obtain m where
    m: "readFileSync example_world (path_join example_dir (lit ''metadata.json''))
          = Inr (Metadata_json m)"
    and all: "\<forall>i < length (tableOfContents m).
               let tocItem = tableOfContents m ! i;
                   st = downloadStatuses ?r ! i;
                   p = path_join example_dir (checkDownloadStatus_fileName tocItem)
               in docbookId st = docbookId tocItem \<and> pageNum st = pageNum tocItem
                  \<and> filePath st = p \<and> fileExists st = existsSync example_world p
                  \<and> (status st = Success \<longleftrightarrow>
                       existsSync example_world p
                       \<and> (statSync example_world p = None
                          \<or> (\<exists>n. statSync example_world p = Some n \<and> 1000 < n)))
                  \<and> (existsSync example_world p \<and> statSync example_world p = Some 500
                       \<longrightarrow> status st = Failed \<and> fileExists st)"
    by blast
  from m rd have meq: "m = example_metadata" by simp
  have len: "0 < length (tableOfContents m)"
    by (simp add: meq example_metadata_def example_toc_def)
  from all [rule_format, OF len] have
    "existsSync example_world (path_join example_dir (checkDownloadStatus_fileName (example_toc ! 0)))
       \<and> statSync example_world (path_join example_dir (checkDownloadStatus_fileName (example_toc ! 0))) = Some 500
     \<longrightarrow> status (downloadStatuses ?r ! 0) = Failed \<and> fileExists (downloadStatuses ?r ! 0)"
    by (simp add: Let_def meq example_metadata_def)
  with ex sz name run show ?thesis by simp
qed


text \<open>
  Claim C2. For a manifest whose \<open>totalPages\<close> is the length of its table of contents,
  the report satisfies \<open>successCount + failedCount = totalPages\<close>: the first counts the
  statuses that are \<open>Success\<close>, the second the statuses that are not, and there is one
  status per entry.
\<close>

theorem checkDownloadStatus_counts:
  assumes "fst (checkDownloadStatus e w bookDir) = Inr report"
    and "readFileSync w (path_join bookDir (lit ''metadata.json'')) = Inr (Metadata_json metadata)"
    and "totalPages metadata = int (length (tableOfContents metadata))"
  shows "successCount report + failedCount report = reportTotalPages report
       \<and> reportTotalPages report = totalPages metadata
       \<and> length (downloadStatuses report) = length (tableOfContents metadata)
       \<and> successCount report
           = int (length (filter (\<lambda>s. status s = Success) (downloadStatuses report)))
       \<and> failedCount report
           = int (length (filter (\<lambda>s. status s \<noteq> Success) (downloadStatuses report)))"
proof -
  from assms(1) obtain w' where "checkDownloadStatus e w bookDir = (Inr report, w')"
    by (cases "checkDownloadStatus e w bookDir") simp
  then obtain m where "readFileSync w (path_join bookDir (lit ''metadata.json'')) = Inr (Metadata_json m)"
    and rep: "report = make_report e w bookDir m"
    using checkDownloadStatus_Inr by blast
  with assms(2) have rep': "report = make_report e w bookDir metadata" by simp
  have neq: "(\<lambda>s::DownloadStatus. status s \<noteq> Success) = (\<lambda>s. status s = Failed)"
    by (rule ext) (metis status.exhaust status.distinct(1))
  have sts: "downloadStatuses report = map (check_entry w bookDir) (tableOfContents metadata)"
    by (simp add: rep' make_report_statuses)
  have s: "successCount report
             = int (length (filter (\<lambda>s. status s = Success) (downloadStatuses report)))"
    and f: "failedCount report
             = int (length (filter (\<lambda>s. status s = Failed) (downloadStatuses report)))"
    and t: "reportTotalPages report = totalPages metadata"
    by (simp_all add: rep' make_report_def case_prod_beta)
  have "length (filter (\<lambda>s. status s = Success) (downloadStatuses report))
          + length (filter (\<lambda>s. status s \<noteq> Success) (downloadStatuses report))
        = length (downloadStatuses report)"
    by (rule sum_length_filter_compl)
  with s f t assms(3) sts show ?thesis by (simp add: neq)
qed

text \<open>The example manifest has three entries, and the two counts add up to 3.\<close>

theorem checkDownloadStatus_counts_witness:
  "fst (checkDownloadStatus example_env example_world example_dir)
     = Inr (make_report example_env example_world example_dir example_metadata)
   \<and> readFileSync example_world (path_join example_dir (lit ''metadata.json''))
       = Inr (Metadata_json example_metadata)
   \<and> totalPages example_metadata = int (length (tableOfContents example_metadata))
   \<and> successCount (make_report example_env example_world example_dir example_metadata)
       + failedCount (make_report example_env example_world example_dir example_metadata) = 3"
proof -
  let ?r = "make_report example_env example_world example_dir example_metadata"
  have rd: "readFileSync example_world (path_join example_dir (lit ''metadata.json''))
              = Inr (Metadata_json example_metadata)"
    by (simp add: readFileSync_def example_world_def)
  have run: "fst (checkDownloadStatus example_env example_world example_dir) = Inr ?r"
    by (simp add: checkDownloadStatus_def Let_def rd existsSync_def writeFileSync_def put_node_def,
        simp add: example_world_def)
  have inv: "totalPages example_metadata = int (length (tableOfContents example_metadata))"
    by (simp add: example_metadata_def example_toc_def)
  from checkDownloadStatus_counts [OF run rd inv]
  have "successCount ?r + failedCount ?r = totalPages example_metadata" by simp
  with run rd inv show ?thesis by (simp add: example_metadata_def)
qed

subsection \<open>Chapter segmentation\<close>

lemma isPremessa_Premessa: "isPremessa (lit ''Premessa'')"
  by (simp add: isPremessa_def toLowerCase_def lower_char_def is_upper_def lit_simps)

lemma not_isPremessa_Capitolo_1: "\<not> isPremessa (lit ''Capitolo 1'')"
  by (simp add: isPremessa_def toLowerCase_def lower_char_def is_upper_def lit_simps)

lemma isChapterStart_Capitolo_1: "isChapterStart (lit ''Capitolo 1'')"
  by (simp add: isChapterStart_def lower_char_def is_upper_def lit_simps is_space_def is_digit_def)

lemmas title_eval =
  isPremessa_def isChapterStart_def toLowerCase_def lower_char_def is_upper_def lit_simps
  is_space_def is_digit_def

lemma example_toc5_titles:
  "isPremessa (lit ''Premessa'')" "\<not> isPremessa (lit ''Capitolo 1'')"
  "isChapterStart (lit ''Capitolo 1'')"
  "\<not> isPremessa (lit ''1. Le fonti'')" "\<not> isChapterStart (lit ''1. Le fonti'')"
  "\<not> isPremessa (lit ''2. I soggetti'')" "\<not> isChapterStart (lit ''2. I soggetti'')"
  "\<not> isPremessa (lit ''3. Gli atti'')" "\<not> isChapterStart (lit ''3. Gli atti'')"
  "\<not> isPremessa (lit ''Nota'')" "\<not> isChapterStart (lit ''Nota'')"
  "\<not> isPremessa (lit ''Indice'')" "\<not> isChapterStart (lit ''Indice'')"
  by (simp_all add: title_eval)

text \<open>
  Claim C5. For a table of contents of five entries, a page titled \<open>Premessa\<close>, a page
  titled \<open>Capitolo 1\<close> and three plain sections in this order, \<open>identifyChapters\<close>
  returns exactly two chapters: number 0 with the Premessa page alone, and number 1 with
  the Capitolo page followed by the three sections.
\<close>

theorem identifyChapters_scenario:
  assumes "title p = lit ''Premessa''" and "title c = lit ''Capitolo 1''"
    and "\<not> isPremessa (title s1)" and "\<not> isChapterStart (title s1)"
    and "\<not> isPremessa (title s2)" and "\<not> isChapterStart (title s2)"
    and "\<not> isPremessa (title s3)" and "\<not> isChapterStart (title s3)"
  shows "identifyChapters [p, c, s1, s2, s3] =
           [\<lparr>chapterNumber = 0, chapterTitle = title p, startPage = pageNum p,
              endPage = pageNum p, pages = [p]\<rparr>,
            \<lparr>chapterNumber = 1, chapterTitle = title c, startPage = pageNum c,
              endPage = pageNum s3, pages = [c, s1, s2, s3]\<rparr>]"
  using assms
  by (simp add: identifyChapters_def close_chapter_def isPremessa_Premessa
      not_isPremessa_Capitolo_1 isChapterStart_Capitolo_1)

text \<open>The five entries of the example give the two chapters with pages 1 to 1 and 2 to 5.\<close>

theorem identifyChapters_scenario_witness:
  "identifyChapters example_toc5 =
     [\<lparr>chapterNumber = 0, chapterTitle = lit ''Premessa'', startPage = 1, endPage = 1,
        pages = [example_toc5 ! 0]\<rparr>,
      \<lparr>chapterNumber = 1, chapterTitle = lit ''Capitolo 1'', startPage = 2, endPage = 5,
        pages = [example_toc5 ! 1, example_toc5 ! 2, example_toc5 ! 3, example_toc5 ! 4]\<rparr>]"
  using identifyChapters_scenario
    [of "example_toc5 ! 0" "example_toc5 ! 1" "example_toc5 ! 2" "example_toc5 ! 3"
        "example_toc5 ! 4"]
  by (simp add: example_toc5_def example_toc5_titles)

lemma ordered_ranges_snoc:
  "ordered_ranges (chs @ [c]) \<longleftrightarrow>
     ordered_ranges chs \<and> (\<forall>d \<in> set chs. endPage d < startPage c) \<and> startPage c \<le> endPage c"
  by (auto simp: ordered_ranges_def sorted_wrt_append)

lemma close_chapter_ordered:
  assumes "ordered_ranges chs" and "open_ok chs (item # rest) L cur"
    and "\<forall>c \<in> set chs. endPage c < pageNum item"
  shows "ordered_ranges (close_chapter chs cur item)
       \<and> (\<forall>c \<in> set (close_chapter chs cur item). endPage c < pageNum item)"
  using assms
  by (cases cur) (auto simp: close_chapter_def open_ok_def ordered_ranges_snoc)

lemma identify_loop_ordered:
  assumes "identify_loop n rest chapters cur num = (chs', cur')"
    and "sorted_wrt (<) (map pageNum rest)"
    and "ordered_ranges chapters"
    and "\<forall>c \<in> set chapters. \<forall>t \<in> set rest. endPage c < pageNum t"
    and "\<forall>t \<in> set rest. pageNum t \<le> L"
    and "open_ok chapters rest L cur"
  shows "ordered_ranges chs' \<and> open_ok chs' [] L cur'"
  using assms
proof (induction rest arbitrary: chapters cur num)
  case Nil
  then show ?case by (cases cur) (auto simp: open_ok_def)
next
  case (Cons item rest)
  have lt: "\<forall>t \<in> set rest. pageNum item < pageNum t"
    using Cons.prems(2) by auto
  have srt: "sorted_wrt (<) (map pageNum rest)"
    using Cons.prems(2) by simp
  have le: "\<forall>t \<in> set rest. pageNum t \<le> L" and leI: "pageNum item \<le> L"
    using Cons.prems(5) by auto
  have before: "\<forall>c \<in> set chapters. endPage c < pageNum item"
    using Cons.prems(4) by auto
  note cl = close_chapter_ordered [OF Cons.prems(3) Cons.prems(6) before]
  let ?closed = "close_chapter chapters cur item"
  show ?case
  proof (cases "isPremessa (title item)")
    case True
    let ?p = "\<lparr>chapterNumber = 0, chapterTitle = title item, startPage = pageNum item,
                 endPage = pageNum item, pages = [item]\<rparr>"
    from True Cons.prems(1)
    have run: "identify_loop n rest (?closed @ [?p]) None num = (chs', cur')" by simp
    have o: "ordered_ranges (?closed @ [?p])"
      using cl by (simp add: ordered_ranges_snoc)
    have b: "\<forall>c \<in> set (?closed @ [?p]). \<forall>t \<in> set rest. endPage c < pageNum t"
      using cl lt by fastforce
    show ?thesis
      by (rule Cons.IH [OF run srt o b le]) (simp add: open_ok_def)
  next
    case False
    show ?thesis
    proof (cases "isChapterStart (title item)")
      case True
      let ?c = "\<lparr>chapterNumber = num + 1, chapterTitle = title item, startPage = pageNum item,
                   endPage = n, pages = [item]\<rparr>"
      from True False Cons.prems(1)
      have run: "identify_loop n rest ?closed (Some ?c) (num + 1) = (chs', cur')" by simp
      have o: "ordered_ranges ?closed" using cl by simp
      have b: "\<forall>c \<in> set ?closed. \<forall>t \<in> set rest. endPage c < pageNum t"
        using cl lt by fastforce
      have ok: "open_ok ?closed rest L (Some ?c)"
        using cl lt leI by (simp add: open_ok_def)
      show ?thesis by (rule Cons.IH [OF run srt o b le ok])
    next
      case notstart: False
      have b: "\<forall>c \<in> set chapters. \<forall>t \<in> set rest. endPage c < pageNum t"
        using Cons.prems(4) by auto
      show ?thesis
      proof (cases cur)
        case None
        with False notstart Cons.prems(1)
        have run: "identify_loop n rest chapters None num = (chs', cur')" by simp
        show ?thesis
          by (rule Cons.IH [OF run srt Cons.prems(3) b le]) (simp add: open_ok_def)
      next
        case (Some c)
        with False notstart Cons.prems(1)
        have run: "identify_loop n rest chapters (Some (c\<lparr>pages := pages c @ [item]\<rparr>)) num
                     = (chs', cur')" by simp
        have ok: "open_ok chapters rest L (Some (c\<lparr>pages := pages c @ [item]\<rparr>))"
          using Cons.prems(6) Some by (simp add: open_ok_def)
        show ?thesis by (rule Cons.IH [OF run srt Cons.prems(3) b le ok])
      qed
    qed
  qed
qed

lemma identifyChapters_ordered:
  assumes "sorted_wrt (<) (map pageNum tocItems)"
  shows "ordered_ranges (identifyChapters tocItems)"
proof -
  obtain chs cur where run: "identify_loop (int (length tocItems)) tocItems [] None 0 = (chs, cur)"
    by (cases "identify_loop (int (length tocItems)) tocItems [] None 0")
  have le: "\<forall>t \<in> set tocItems. pageNum t \<le> pageNum (last tocItems)"
  proof
    fix t assume t: "t \<in> set tocItems"
    then have ne: "tocItems \<noteq> []" by auto
    from t obtain i where i: "i < length tocItems" "t = tocItems ! i"
      by (auto simp: in_set_conv_nth)
    show "pageNum t \<le> pageNum (last tocItems)"
    proof (cases "i = length tocItems - 1")
      case True
      with i ne show ?thesis by (simp add: last_conv_nth)
    next
      case False
      with i have "i < length tocItems - 1" by simp
      with assms i ne have "pageNum (tocItems ! i) < pageNum (tocItems ! (length tocItems - 1))"
        by (simp add: sorted_wrt_iff_nth_less)
      with i ne show ?thesis by (simp add: last_conv_nth)
    qed
  qed
  have "ordered_ranges chs \<and> open_ok chs [] (pageNum (last tocItems)) cur"
    by (rule identify_loop_ordered [OF run assms _ _ le])
       (simp_all add: ordered_ranges_def open_ok_def)
  then show ?thesis
    by (cases cur) (auto simp: identifyChapters_def run open_ok_def ordered_ranges_snoc)
qed

lemma contiguous_sorted:
  assumes "map pageNum tocItems = map int [1..<Suc (length tocItems)]"
  shows "sorted_wrt (<) (map pageNum tocItems)"
  unfolding assms by (simp add: sorted_wrt_map del: upt_Suc)

text \<open>
  Claim C6. When the page numbers of the table of contents are \<open>1, 2, ..., n\<close> in this
  order, any two different chapters that \<open>identifyChapters\<close> returns have disjoint page
  ranges \<open>[startPage, endPage]\<close>, and no range is empty.
\<close>

theorem identifyChapters_no_overlap:
  assumes "map pageNum tocItems = map int [1..<Suc (length tocItems)]"
    and "i < length (identifyChapters tocItems)" and "j < length (identifyChapters tocItems)"
    and "i \<noteq> j"
  shows "startPage (identifyChapters tocItems ! i) \<le> endPage (identifyChapters tocItems ! i)
       \<and> (endPage (identifyChapters tocItems ! i) < startPage (identifyChapters tocItems ! j)
          \<or> endPage (identifyChapters tocItems ! j) < startPage (identifyChapters tocItems ! i))"
proof -
  have o: "ordered_ranges (identifyChapters tocItems)"
    by (rule identifyChapters_ordered [OF contiguous_sorted [OF assms(1)]])
  then have s: "sorted_wrt (\<lambda>a b. endPage a < startPage b) (identifyChapters tocItems)"
    and r: "\<forall>c \<in> set (identifyChapters tocItems). startPage c \<le> endPage c"
    by (simp_all add: ordered_ranges_def)
  from r assms(2) have 1: "startPage (identifyChapters tocItems ! i) \<le> endPage (identifyChapters tocItems ! i)"
    by simp
  from assms(4) consider "i < j" | "j < i" by linarith
  then have "endPage (identifyChapters tocItems ! i) < startPage (identifyChapters tocItems ! j)
          \<or> endPage (identifyChapters tocItems ! j) < startPage (identifyChapters tocItems ! i)"
  proof cases
    case 1
    with s assms(3) show ?thesis by (simp add: sorted_wrt_iff_nth_less)
  next
    case 2
    with s assms(2) show ?thesis by (simp add: sorted_wrt_iff_nth_less)
  qed
  with 1 show ?thesis by simp
qed

text \<open>In the example the range of the Premessa ends at 1 and the chapter starts at 2.\<close>

theorem identifyChapters_no_overlap_witness:
  "map pageNum example_toc5 = map int [1..<Suc (length example_toc5)]
   \<and> 0 < length (identifyChapters example_toc5) \<and> 1 < length (identifyChapters example_toc5)
   \<and> endPage (identifyChapters example_toc5 ! 0) < startPage (identifyChapters example_toc5 ! 1)"
proof -
  have c: "map pageNum example_toc5 = map int [1..<Suc (length example_toc5)]"
    by (simp add: example_toc5_def upt_rec)
  have ev: "identifyChapters example_toc5 =
     [\<lparr>chapterNumber = 0, chapterTitle = lit ''Premessa'', startPage = 1, endPage = 1,
        pages = [example_toc5 ! 0]\<rparr>,
      \<lparr>chapterNumber = 1, chapterTitle = lit ''Capitolo 1'', startPage = 2, endPage = 5,
        pages = [example_toc5 ! 1, example_toc5 ! 2, example_toc5 ! 3, example_toc5 ! 4]\<rparr>]"
    by (simp add: identifyChapters_def close_chapter_def example_toc5_def example_toc5_titles)
  have l0: "0 < length (identifyChapters example_toc5)"
    and l1: "1 < length (identifyChapters example_toc5)"
    by (simp_all add: ev)
  have ne: "(0::nat) \<noteq> 1" by simp
  from identifyChapters_no_overlap [OF c l0 l1 ne] c l0 l1 show ?thesis
    by (simp add: ev)
qed

lemma is_open_simps [simp]: "is_open None = False" "is_open (Some c) = True"
  by (simp_all add: is_open_def)














subsection \<open>Chapter merging\<close>

lemma merge_loop_eq:
  "merge_loop w bookDir ps merged
     = merged @ concat (map (loaded_pages w bookDir) (filter (artifact_exists w bookDir) ps))"
proof (induction ps arbitrary: merged)
  case Nil
  show ?case by simp
next
  case (Cons page rest)
  show ?case
    by (simp add: Let_def Cons.IH loaded_pages_def artifact_exists_def
        split: sum.splits content.splits)
qed

lemma mergeChapterPages_never_raises:
  "fst (mergeChapterPages e w bookDir processedDir chapter) = Inr ()"
  by (simp add: mergeChapterPages_def split: sum.splits)

lemma mergeChapterPages_output:
  assumes "writable w (path_join processedDir (outputFileName chapter))"
  shows "map_option content
           (files (snd (mergeChapterPages e w bookDir processedDir chapter))
              (path_join processedDir (outputFileName chapter)))
         = Some (Pdf (save_pdf (concat (map (loaded_pages w bookDir)
                                (filter (artifact_exists w bookDir) (pages chapter))))))"
  using assms
  by (simp add: mergeChapterPages_def mergeChapterPages_try_def writeFileSync_def put_node_def
      Let_def merge_loop_eq)

text \<open>A chapter none of whose artifacts exists is saved as one empty page.\<close>

lemma mergeChapterPages_no_artifact:
  assumes "writable w (path_join processedDir (outputFileName ch))"
    and "\<forall>p \<in> set (pages ch). \<not> artifact_exists w bookDir p"
  shows "map_option content
           (files (snd (mergeChapterPages e w bookDir processedDir ch))
              (path_join processedDir (outputFileName ch)))
         = Some (Pdf [Blank_page])"
proof -
  from assms(2) have "filter (artifact_exists w bookDir) (pages ch) = []"
    by (simp add: filter_empty_conv)
  with mergeChapterPages_output [OF assms(1), of e bookDir] show ?thesis
    by (simp add: save_pdf_def)
qed

lemma loaded_pages_Pdf:
  "files w (path_join bookDir (mergeChapterPages_fileName p)) = Some n \<Longrightarrow> content n = Pdf a
     \<Longrightarrow> loaded_pages w bookDir p = a \<and> artifact_exists w bookDir p"
  by (simp add: loaded_pages_def artifact_exists_def readFileSync_def existsSync_def)

lemma artifact_missing:
  "files w (path_join bookDir (mergeChapterPages_fileName p)) = None
     \<Longrightarrow> \<not> artifact_exists w bookDir p"
  by (simp add: artifact_exists_def existsSync_def)

lemma example_file_names:
  "mergeChapterPages_fileName (example_toc ! 0) = lit ''page_001__11_1.pdf''"
  "mergeChapterPages_fileName (example_toc ! 1) = lit ''page_002__11_2.pdf''"
  "mergeChapterPages_fileName (example_toc ! 2) = lit ''page_003__11_3.pdf''"
  by (simp_all add: example_toc_def mergeChapterPages_fileName_def padStart_zero
      replace_all_single number_toString_def digits.simps lit_simps is_alnum_def
      is_lower_def is_upper_def is_digit_def eval_nat_numeral)

text \<open>
  Claim C8. \<open>mergeChapterPages\<close> never raises. The document it merges is the
  concatenation, in the order of \<open>chapter.pages\<close>, of the pages of the artifacts that
  exist; a page whose artifact is absent is skipped (and an artifact that exists but
  cannot be loaded adds no page). When the output file can be written it holds this
  document as \<open>save\<close> writes it: the document itself when it has a page, and one empty
  page when no artifact gave any. In particular, for a chapter of three pages whose
  first and third artifacts hold the pages \<open>a\<close> and \<open>c\<close> (at least one page between
  them) and whose second artifact is absent, the output document is \<open>a\<close> followed by
  \<open>c\<close> and nothing else.
\<close>

theorem mergeChapterPages_skips_missing:
  "fst (mergeChapterPages e w bookDir processedDir chapter) = Inr ()
   \<and> (writable w (path_join processedDir (outputFileName chapter)) \<longrightarrow>
        map_option content
          (files (snd (mergeChapterPages e w bookDir processedDir chapter))
             (path_join processedDir (outputFileName chapter)))
        = Some (Pdf (save_pdf (concat (map (loaded_pages w bookDir)
                               (filter (artifact_exists w bookDir) (pages chapter)))))))
   \<and> (writable w (path_join processedDir (outputFileName chapter))
        \<and> concat (map (loaded_pages w bookDir)
              (filter (artifact_exists w bookDir) (pages chapter))) \<noteq> [] \<longrightarrow>
        map_option content
          (files (snd (mergeChapterPages e w bookDir processedDir chapter))
             (path_join processedDir (outputFileName chapter)))
        = Some (Pdf (concat (map (loaded_pages w bookDir)
                               (filter (artifact_exists w bookDir) (pages chapter))))))
   \<and> (\<forall>p1 p2 p3 n1 n3 a c.
         writable w (path_join processedDir (outputFileName chapter))
         \<and> pages chapter = [p1, p2, p3]
         \<and> files w (path_join bookDir (mergeChapterPages_fileName p1)) = Some n1
         \<and> content n1 = Pdf a
         \<and> files w (path_join bookDir (mergeChapterPages_fileName p2)) = None
         \<and> files w (path_join bookDir (mergeChapterPages_fileName p3)) = Some n3
         \<and> content n3 = Pdf c
         \<and> a @ c \<noteq> []
         \<longrightarrow> map_option content
               (files (snd (mergeChapterPages e w bookDir processedDir chapter))
                  (path_join processedDir (outputFileName chapter)))
             = Some (Pdf (a @ c)))"
proof (intro conjI allI impI)
  show "fst (mergeChapterPages e w bookDir processedDir chapter) = Inr ()"
    by (rule mergeChapterPages_never_raises)
next
  assume "writable w (path_join processedDir (outputFileName chapter))"
  then show "map_option content
          (files (snd (mergeChapterPages e w bookDir processedDir chapter))
             (path_join processedDir (outputFileName chapter)))
        = Some (Pdf (save_pdf (concat (map (loaded_pages w bookDir)
                               (filter (artifact_exists w bookDir) (pages chapter))))))"
    by (rule mergeChapterPages_output)
next
  assume h: "writable w (path_join processedDir (outputFileName chapter))
        \<and> concat (map (loaded_pages w bookDir)
              (filter (artifact_exists w bookDir) (pages chapter))) \<noteq> []"
  then have "save_pdf (concat (map (loaded_pages w bookDir)
                         (filter (artifact_exists w bookDir) (pages chapter))))
               = concat (map (loaded_pages w bookDir)
                         (filter (artifact_exists w bookDir) (pages chapter)))"
    unfolding save_pdf_def by (simp only: if_False)
  with h mergeChapterPages_output [of w processedDir "chapter" e bookDir]
  show "map_option content
          (files (snd (mergeChapterPages e w bookDir processedDir chapter))
             (path_join processedDir (outputFileName chapter)))
        = Some (Pdf (concat (map (loaded_pages w bookDir)
                               (filter (artifact_exists w bookDir) (pages chapter)))))"
    by (simp only:)
next
  fix p1 p2 p3 n1 n3 a c
  assume h: "writable w (path_join processedDir (outputFileName chapter))
         \<and> pages chapter = [p1, p2, p3]
         \<and> files w (path_join bookDir (mergeChapterPages_fileName p1)) = Some n1
         \<and> content n1 = Pdf a
         \<and> files w (path_join bookDir (mergeChapterPages_fileName p2)) = None
         \<and> files w (path_join bookDir (mergeChapterPages_fileName p3)) = Some n3
         \<and> content n3 = Pdf c
         \<and> a @ c \<noteq> []"
  then have 1: "loaded_pages w bookDir p1 = a \<and> artifact_exists w bookDir p1"
    and 2: "\<not> artifact_exists w bookDir p2"
    and 3: "loaded_pages w bookDir p3 = c \<and> artifact_exists w bookDir p3"
    by (simp_all add: loaded_pages_Pdf artifact_missing)
  from h have "map_option content
          (files (snd (mergeChapterPages e w bookDir processedDir chapter))
             (path_join processedDir (outputFileName chapter)))
        = Some (Pdf (save_pdf (concat (map (loaded_pages w bookDir)
                               (filter (artifact_exists w bookDir) (pages chapter))))))"
    by (simp add: mergeChapterPages_output)
  moreover from h 1 2 3 have "concat (map (loaded_pages w bookDir)
                               (filter (artifact_exists w bookDir) (pages chapter))) = a @ c"
    by simp
  moreover from h have "save_pdf (a @ c) = a @ c"
    by (simp add: save_pdf_def)
  ultimately show "map_option content
               (files (snd (mergeChapterPages e w bookDir processedDir chapter))
                  (path_join processedDir (outputFileName chapter)))
             = Some (Pdf (a @ c))"
    by simp
qed

text \<open>
  In the example the artifact of the second entry is missing, and the merged chapter
  holds page 10 of the first artifact and page 30 of the third.
\<close>

theorem mergeChapterPages_skips_missing_witness:
  "writable example_gap (path_join (path_join example_dir (lit ''processed''))
                           (outputFileName example_chapter))
   \<and> files example_gap (path_join example_dir (mergeChapterPages_fileName (example_toc ! 1))) = None
   \<and> fst (mergeChapterPages example_env example_gap example_dir
            (path_join example_dir (lit ''processed'')) example_chapter) = Inr ()
   \<and> map_option content
        (files (snd (mergeChapterPages example_env example_gap example_dir
                       (path_join example_dir (lit ''processed'')) example_chapter))
           (path_join (path_join example_dir (lit ''processed''))
              (outputFileName example_chapter)))
      = Some (Pdf [Captured_page 10, Captured_page 30])"
proof -
  let ?out = "path_join (path_join example_dir (lit ''processed'')) (outputFileName example_chapter)"
  have wr: "writable example_gap ?out"
    by (simp add: example_gap_def)
  have pg: "pages example_chapter = [example_toc ! 0, example_toc ! 1, example_toc ! 2]"
    by (simp add: example_chapter_def example_toc_def)
  have f1: "files example_gap (path_join example_dir (mergeChapterPages_fileName (example_toc ! 0)))
              = Some \<lparr>stat_size = Some 48000, content = Pdf [Captured_page 10]\<rparr>"
    and f2: "files example_gap (path_join example_dir (mergeChapterPages_fileName (example_toc ! 1)))
              = None"
    and f3: "files example_gap (path_join example_dir (mergeChapterPages_fileName (example_toc ! 2)))
              = Some \<lparr>stat_size = Some 51000, content = Pdf [Captured_page 30]\<rparr>"
    by (simp_all only: example_file_names)
       (simp_all add: example_gap_def path_join_def example_dir_def lit_simps)
  from mergeChapterPages_skips_missing
    [of example_env example_gap example_dir "path_join example_dir (lit ''processed'')"
        example_chapter]
  have never: "fst (mergeChapterPages example_env example_gap example_dir
                 (path_join example_dir (lit ''processed'')) example_chapter) = Inr ()"
    and scen: "\<And>p1 p2 p3 n1 n3 a c.
         writable example_gap ?out
         \<and> pages example_chapter = [p1, p2, p3]
         \<and> files example_gap (path_join example_dir (mergeChapterPages_fileName p1)) = Some n1
         \<and> content n1 = Pdf a
         \<and> files example_gap (path_join example_dir (mergeChapterPages_fileName p2)) = None
         \<and> files example_gap (path_join example_dir (mergeChapterPages_fileName p3)) = Some n3
         \<and> content n3 = Pdf c
         \<and> a @ c \<noteq> []
         \<Longrightarrow> map_option content
               (files (snd (mergeChapterPages example_env example_gap example_dir
                       (path_join example_dir (lit ''processed'')) example_chapter)) ?out)
             = Some (Pdf (a @ c))"
    by blast+
  have "map_option content
               (files (snd (mergeChapterPages example_env example_gap example_dir
                       (path_join example_dir (lit ''processed'')) example_chapter)) ?out)
             = Some (Pdf ([Captured_page 10] @ [Captured_page 30]))"
    by (rule scen [of "example_toc ! 0" "example_toc ! 1" "example_toc ! 2"
          "\<lparr>stat_size = Some 48000, content = Pdf [Captured_page 10]\<rparr>" "[Captured_page 10]"
          "\<lparr>stat_size = Some 51000, content = Pdf [Captured_page 30]\<rparr>" "[Captured_page 30]"])
       (simp only: wr pg f1 f2 f3 node.simps simp_thms append_Cons list.distinct)
  with wr f2 never show ?thesis by simp
qed

subsection \<open>Title sanitization\<close>

lemma accent_ranges:
  "(c \<in> {224, 225, 226, 227, 228, 229}) = (224 \<le> c \<and> c \<le> (229::nat))"
  "(c \<in> {232, 233, 234, 235}) = (232 \<le> c \<and> c \<le> (235::nat))"
  "(c \<in> {236, 237, 238, 239}) = (236 \<le> c \<and> c \<le> (239::nat))"
  "(c \<in> {242, 243, 244, 245, 246}) = (242 \<le> c \<and> c \<le> (246::nat))"
  "(c \<in> {249, 250, 251, 252}) = (249 \<le> c \<and> c \<le> (252::nat))"
  by (simp_all, arith+)

lemma passes_ranges:
  "passes c =
     (let c1 = (if 224 \<le> c \<and> c \<le> 229 then 97 else c);
          c2 = (if 232 \<le> c1 \<and> c1 \<le> 235 then 101 else c1);
          c3 = (if 236 \<le> c2 \<and> c2 \<le> 239 then 105 else c2);
          c4 = (if 242 \<le> c3 \<and> c3 \<le> 246 then 111 else c3);
          c5 = (if 249 \<le> c4 \<and> c4 \<le> 252 then 117 else c4);
          c6 = (if c5 = 231 then 99 else c5)
      in if c6 = 241 then 110 else c6)"
  unfolding passes_def accent_ranges ..

lemma passes_base_letter: "passes c = base_letter c"
proof -
  have a: "224 \<le> c \<and> c \<le> 229 \<Longrightarrow> ?thesis"
    by (simp add: passes_ranges base_letter_def Let_def)
  have b: "232 \<le> c \<and> c \<le> 235 \<Longrightarrow> ?thesis"
    by (simp add: passes_ranges base_letter_def Let_def)
  have c: "236 \<le> c \<and> c \<le> 239 \<Longrightarrow> ?thesis"
    by (simp add: passes_ranges base_letter_def Let_def)
  have d: "242 \<le> c \<and> c \<le> 246 \<Longrightarrow> ?thesis"
    by (simp add: passes_ranges base_letter_def Let_def)
  have e: "249 \<le> c \<and> c \<le> 252 \<Longrightarrow> ?thesis"
    by (simp add: passes_ranges base_letter_def Let_def)
  have f: "c = 231 \<Longrightarrow> ?thesis" "c = 241 \<Longrightarrow> ?thesis"
    by (simp_all add: passes_ranges base_letter_def Let_def)
  have g: "c < 224 \<or> c = 230 \<or> c = 240 \<or> c = 247 \<or> c = 248 \<or> 252 < c \<Longrightarrow> ?thesis"
    by (auto simp add: passes_ranges base_letter_def Let_def)
  from a b c d e f g show ?thesis by linarith
qed

lemma transliterate_map:
  "replace_all (\<lambda>c. c = 241) (lit ''n'')
     (replace_all (\<lambda>c. c = 231) (lit ''c'')
       (replace_all (\<lambda>c. c \<in> {249, 250, 251, 252}) (lit ''u'')
         (replace_all (\<lambda>c. c \<in> {242, 243, 244, 245, 246}) (lit ''o'')
           (replace_all (\<lambda>c. c \<in> {236, 237, 238, 239}) (lit ''i'')
             (replace_all (\<lambda>c. c \<in> {232, 233, 234, 235}) (lit ''e'')
               (replace_all (\<lambda>c. c \<in> {224, 225, 226, 227, 228, 229}) (lit ''a'') t))))))
   = map base_letter t"
proof -
  have lits: "lit ''n'' = [110]" "lit ''c'' = [99]" "lit ''u'' = [117]" "lit ''o'' = [111]"
    "lit ''i'' = [105]" "lit ''e'' = [101]" "lit ''a'' = [97]"
    by (simp_all add: lit_simps)
  have "map base_letter t = map passes t"
    by (simp add: passes_base_letter)
  also have "\<dots> = replace_all (\<lambda>c. c = 241) [110]
     (replace_all (\<lambda>c. c = 231) [99]
       (replace_all (\<lambda>c. c \<in> {249, 250, 251, 252}) [117]
         (replace_all (\<lambda>c. c \<in> {242, 243, 244, 245, 246}) [111]
           (replace_all (\<lambda>c. c \<in> {236, 237, 238, 239}) [105]
             (replace_all (\<lambda>c. c \<in> {232, 233, 234, 235}) [101]
               (replace_all (\<lambda>c. c \<in> {224, 225, 226, 227, 228, 229}) [97] t))))))"
    unfolding replace_all_single map_map o_def passes_def Let_def ..
  finally show ?thesis unfolding lits by simp
qed

text \<open>The function as one pipeline, for every title.\<close>

lemma sanitizeFileName_pipeline:
  "sanitizeFileName t =
     take 80 (map lower_char (strip_ends (\<lambda>c. c = 95) (replace_runs is_space [95]
       (filter (\<lambda>c. is_alnum c \<or> is_space c \<or> c = 45 \<or> c = 95 \<or> c = 46)
          (filter (\<lambda>c. \<not> is_quote c) (map base_letter t))))))"
proof -
  have u: "lit ''_'' = [95]" by (simp add: lit_simps)
  show ?thesis
    unfolding sanitizeFileName_def transliterate_map replace_all_empty substring0_def
      toLowerCase_def u is_quote_def
    by simp
qed

lemma replace_runs_collapse:
  "replace_runs is_space [95] s = collapse False s
   \<and> replace_runs is_space [95] (dropWhile is_space s) = collapse True s"
proof (induction s)
  case Nil
  show ?case by simp
next
  case (Cons c cs)
  then show ?case
    by (cases "is_space c") simp_all
qed

lemmas sanitize_eval =
  base_letter_def is_quote_def is_alnum_def is_lower_def is_upper_def is_digit_def
  is_space_def lower_char_def strip_ends_def lit_simps

text \<open>
  Claim C9, as amended. For every chapter title that holds no accented Latin letter
  other than the lower-case ones that the program lists, \<open>sanitizeFileName\<close> returns the
  title with these letters replaced by their base letters, the apostrophe and the back
  quote stripped, the code units outside \<open>[A-Za-z0-9_.-]\<close> and white space removed
  (typographic quotes and dashes among them), every run of white space (tab, line
  breaks and no-break space included) collapsed to one underscore, the underscores at
  both ends trimmed, in lower case and cut to 80 code units; the result has at most 80
  code units. What becomes of the other accented Latin letters is left open.
\<close>

theorem sanitizeFileName_amended:
  assumes "unlisted_accents t = []"
  shows "sanitizeFileName t = sanitize_spec t \<and> length (sanitizeFileName t) \<le> 80"
proof -
  let ?u = "filter (\<lambda>c. \<not> is_quote c) (map base_letter t)"
  have f: "filter (\<lambda>c. is_alnum c \<or> is_space c \<or> c = 45 \<or> c = 95 \<or> c = 46) ?u
             = filter is_kept ?u"
    by (rule filter_cong [OF refl]) (auto simp: is_kept_def)
  have r: "replace_runs is_space [95] (filter is_kept ?u) = collapse False (filter is_kept ?u)"
    using replace_runs_collapse by blast
  have "sanitizeFileName t = sanitize_spec t"
    by (simp only: sanitizeFileName_pipeline f r sanitize_spec_def trim_underscores_def
        strip_ends_def)
  moreover have "length (sanitizeFileName t) \<le> 80"
    by (simp add: sanitizeFileName_pipeline)
  ultimately show ?thesis by simp
qed

text \<open>
  The claim as stated fails. A tab is outside \<open>[A-Za-z0-9 _.-]\<close>, but it is kept by the
  class \<open>\s\<close> of the program and becomes an underscore: \<open>a<TAB>b\<close> gives \<open>a_b\<close>, not
  \<open>ab\<close>. An upper-case accented letter is not transliterated but removed: the title
  \<open>Eta\<close> with an acute accent on its first letter gives \<open>ta\<close>, not \<open>eta\<close>.
\<close>

theorem sanitizeFileName_counterexample:
  "sanitizeFileName [97, 9, 98] = lit ''a_b'' \<and> sanitizeFileName [97, 9, 98] \<noteq> lit ''ab''
   \<and> sanitizeFileName [201, 116, 97] = lit ''ta'' \<and> sanitizeFileName [201, 116, 97] \<noteq> lit ''eta''"
  by (simp add: sanitizeFileName_pipeline sanitize_eval)

text \<open>
  The example title is \<open>Capitolo 1\<close>, a no-break space, an en dash, \<open> L\<close>, a
  typographic apostrophe, \<open>eta<TAB>e  liberta\<close> with a grave accent on both letters
  \<open>a\<close>. It holds no unlisted accented letter, and it becomes
  \<open>capitolo_1_leta_e_liberta\<close>.
\<close>

theorem sanitizeFileName_amended_witness:
  "unlisted_accents example_title = []
   \<and> sanitizeFileName example_title = lit ''capitolo_1_leta_e_liberta''
   \<and> length (sanitizeFileName example_title) \<le> 80"
proof -
  have h: "unlisted_accents example_title = []"
    by (simp add: unlisted_accents_def example_title_def lit_simps is_latin_accented_def
        is_listed_accent_def)
  have "sanitize_spec example_title = lit ''capitolo_1_leta_e_liberta''"
    by (simp add: sanitize_spec_def example_title_def trim_underscores_def is_kept_def
        sanitize_eval)
  with sanitizeFileName_amended [OF h] h show ?thesis by (simp add: lit_def)
qed

subsection \<open>Download coordination\<close>

lemma put_node_keeps:
  "put_node w p n = Inr w' \<Longrightarrow> events w' = events w \<and> writable w' = writable w"
  by (auto simp: put_node_def split: if_splits)

lemma writeFileSync_keeps:
  "writeFileSync e w p c = Inr w' \<Longrightarrow> events w' = events w \<and> writable w' = writable w"
  by (simp add: writeFileSync_def put_node_keeps)

lemma newPage_keeps:
  "events (downloadSinglePageWithNewPage e d b w t) = events w"
  by (auto simp: downloadSinglePageWithNewPage_def dest: put_node_keeps
      split: option.splits sum.splits)

lemma foldl_newPage_keeps:
  "events (foldl (downloadSinglePageWithNewPage e d b) w batch) = events w"
  by (induction batch arbitrary: w) (simp_all add: newPage_keeps)

lemma batch_loop_stop:
  "length tocItems \<le> i \<Longrightarrow> batch_loop e d b tocItems i w = w"
  by (subst batch_loop.simps) simp

lemma batch_loop_step:
  "i < length tocItems \<Longrightarrow>
   events (batch_loop e d b tocItems i w)
     = events (batch_loop e d b tocItems (i + batchSize)
         (foldl (downloadSinglePageWithNewPage e d b)
            (log_event (Concurrent_batch (slice i (i + batchSize) tocItems)) w)
            (slice i (i + batchSize) tocItems)))"
  by (subst batch_loop.simps) (simp add: Let_def)

lemma batch_loop_events11:
  assumes "length tocItems = 11"
  shows "events (batch_loop e d b tocItems 0 w)
           = events w @ [Concurrent_batch (take 10 tocItems), Concurrent_batch (drop 10 tocItems)]"
proof -
  let ?w1 = "foldl (downloadSinglePageWithNewPage e d b)
               (log_event (Concurrent_batch (slice 0 (0 + batchSize) tocItems)) w)
               (slice 0 (0 + batchSize) tocItems)"
  let ?w2 = "foldl (downloadSinglePageWithNewPage e d b)
               (log_event (Concurrent_batch (slice (0 + batchSize) (0 + batchSize + batchSize) tocItems)) ?w1)
               (slice (0 + batchSize) (0 + batchSize + batchSize) tocItems)"
  have "events (batch_loop e d b tocItems 0 w)
          = events (batch_loop e d b tocItems (0 + batchSize) ?w1)"
    by (rule batch_loop_step) (simp add: assms)
  also have "\<dots> = events (batch_loop e d b tocItems (0 + batchSize + batchSize) ?w2)"
    by (rule batch_loop_step) (simp add: assms batchSize_def)
  also have "\<dots> = events ?w2"
    by (subst batch_loop_stop) (simp_all add: assms batchSize_def)
  also have "\<dots> = events w @ [Concurrent_batch (take 10 tocItems), Concurrent_batch (drop 10 tocItems)]"
    by (simp add: foldl_newPage_keeps log_event_def slice_def batchSize_def assms)
  finally show ?thesis .
qed

lemma downloadSinglePage_events:
  "events (snd (downloadSinglePage e w t d b)) = events w @ [Sequential_capture t]"
  by (auto simp: downloadSinglePage_def Let_def log_event_def dest: put_node_keeps
      split: option.splits sum.splits)

lemma first_then_batches_events12:
  assumes "length tocItems = 12"
    and "fst (download_first_then_batches e w tocItems d b) = Inr ()"
  shows "events (snd (download_first_then_batches e w tocItems d b))
           = events w @ [Sequential_capture (tocItems ! 0),
                         Concurrent_batch (take 10 (drop 1 tocItems)),
                         Concurrent_batch (drop 11 tocItems)]"
proof -
  from assms(1) obtain first others where toc: "tocItems = first # others"
    and len: "length others = 11"
    by (cases tocItems) auto
  obtain r w1 where single: "downloadSinglePage e w first d b = (r, w1)"
    by (cases "downloadSinglePage e w first d b")
  with assms(2) toc have r: "r = Inr ()"
    by (cases r) (simp_all add: download_first_then_batches_def)
  from downloadSinglePage_events [of e w first d b] single
  have ev1: "events w1 = events w @ [Sequential_capture first]" by simp
  have sl: "slice 1 (length tocItems) tocItems = others"
    by (simp add: slice_def toc)
  have "snd (download_first_then_batches e w tocItems d b) = batch_loop e d b others 0 w1"
    using single r sl toc len
    by (simp add: download_first_then_batches_def downloadPagesInBatches_def slice_def)
  then show ?thesis
    by (simp add: batch_loop_events11 [OF len] ev1 toc)
qed

lemma mergeChapterPages_keeps:
  "events (snd (mergeChapterPages e w d pd ch)) = events w
   \<and> writable (snd (mergeChapterPages e w d pd ch)) = writable w"
  by (auto simp: mergeChapterPages_def mergeChapterPages_try_def Let_def
      dest: writeFileSync_keeps split: sum.splits)

lemma merge_all_keeps:
  "events (snd (merge_all e w d pd chs)) = events w"
proof (induction chs arbitrary: w)
  case Nil
  show ?case by simp
next
  case (Cons ch chs)
  obtain r w' where m: "mergeChapterPages e w d pd ch = (r, w')"
    by (cases "mergeChapterPages e w d pd ch")
  with mergeChapterPages_keeps [of e w d pd ch] have "events w' = events w" by simp
  with m Cons.IH [of w'] show ?case
    by (cases r) simp_all
qed

lemma mergeChapterPDFs_keeps:
  "events (snd (mergeChapterPDFs e w d)) = events w"
  by (auto simp: mergeChapterPDFs_def Let_def mkdirSync_def merge_all_keeps
      dest: writeFileSync_keeps split: sum.splits content.splits)

lemma mkdir_if_keeps:
  "(if c then mkdirSync e w p else Inr w) = Inr w1 \<Longrightarrow> events w1 = events w"
  by (auto simp: mkdirSync_def dest: writeFileSync_keeps split: if_splits)

lemma fst_case_option_Inr:
  "fst (case x of None \<Rightarrow> (Inl err, w) | Some y \<Rightarrow> f y) = Inr u
     \<Longrightarrow> \<exists>y. x = Some y \<and> fst (f y) = Inr u"
  by (cases x) auto

lemma fst_case_sum_Inr:
  "fst (case x of Inl err \<Rightarrow> (Inl err, w) | Inr y \<Rightarrow> f y) = Inr u
     \<Longrightarrow> \<exists>y. x = Inr y \<and> fst (f y) = Inr u"
  by (cases x) auto

lemma downloadPagesAsPDF_Inr:
  assumes "fst (downloadPagesAsPDF e w tocItems bookNo) = Inr ()"
  shows "\<exists>fbn bookDir w2 w3.
           events w2 = events w
         \<and> download_first_then_batches e w2 tocItems bookDir fbn = (Inr (), w3)
         \<and> snd (downloadPagesAsPDF e w tocItems bookNo) = snd (mergeChapterPDFs e w3 bookDir)"
proof -
  from assms obtain fbn where fbn: "(if truthy bookNo then bookNo else url_book e) = Some fbn"
    unfolding downloadPagesAsPDF_def by (blast dest: fst_case_option_Inr)
  let ?bookDir = "path_join (path_join (cwd e) (lit ''downloads''))
                    (replace_all (\<lambda>c. \<not> is_alnum c) (lit ''_'') fbn)"
  let ?md = "\<lparr>bookNumber = bookNo, extractedAt = now e,
              totalPages = int (length tocItems), tableOfContents = tocItems\<rparr>"
  let ?mk = "if \<not> existsSync w ?bookDir then mkdirSync e w ?bookDir else Inr w"
  have unf: "downloadPagesAsPDF e w tocItems bookNo =
     (case ?mk of
        Inl err \<Rightarrow> (Inl err, w)
      | Inr w1 \<Rightarrow>
          (case writeFileSync e w1 (path_join ?bookDir (lit ''metadata.json'')) (Metadata_json ?md) of
             Inl err \<Rightarrow> (Inl err, w1)
           | Inr w2 \<Rightarrow>
               (case download_first_then_batches e w2 tocItems ?bookDir fbn of
                  (Inl err, w3) \<Rightarrow> (Inl err, w3)
                | (Inr u, w3) \<Rightarrow> (Inr (), snd (mergeChapterPDFs e w3 ?bookDir)))))"
    unfolding downloadPagesAsPDF_def Let_def fbn by (simp only: option.case)
  from assms obtain w1 where w1: "?mk = Inr w1"
    and r1: "fst (case writeFileSync e w1 (path_join ?bookDir (lit ''metadata.json'')) (Metadata_json ?md) of
             Inl err \<Rightarrow> (Inl err, w1)
           | Inr w2 \<Rightarrow>
               (case download_first_then_batches e w2 tocItems ?bookDir fbn of
                  (Inl err, w3) \<Rightarrow> (Inl err, w3)
                | (Inr u, w3) \<Rightarrow> (Inr (), snd (mergeChapterPDFs e w3 ?bookDir)))) = Inr ()"
    unfolding unf by (blast dest: fst_case_sum_Inr)
  from r1 obtain w2 where
    w2: "writeFileSync e w1 (path_join ?bookDir (lit ''metadata.json'')) (Metadata_json ?md) = Inr w2"
    and r2: "fst (case download_first_then_batches e w2 tocItems ?bookDir fbn of
                  (Inl err, w3) \<Rightarrow> (Inl err, w3)
                | (Inr u, w3) \<Rightarrow> (Inr (), snd (mergeChapterPDFs e w3 ?bookDir))) = Inr ()"
    by (blast dest: fst_case_sum_Inr)
  obtain r w3 where d: "download_first_then_batches e w2 tocItems ?bookDir fbn = (r, w3)"
    by (cases "download_first_then_batches e w2 tocItems ?bookDir fbn")
  from r2 have "r = Inr ()"
    unfolding d by (cases r) simp_all
  with d have w3: "download_first_then_batches e w2 tocItems ?bookDir fbn = (Inr (), w3)"
    by simp
  have e2: "events w2 = events w"
    using mkdir_if_keeps [OF w1] writeFileSync_keeps [OF w2] by simp
  have "snd (downloadPagesAsPDF e w tocItems bookNo) = snd (mergeChapterPDFs e w3 ?bookDir)"
    by (simp only: unf w1 w2 w3 sum.case prod.case snd_conv)
  with e2 w3 show ?thesis by blast
qed

lemma downloadPagesAsPDF_succeeds:
  assumes "fbn \<noteq> []" and "\<forall>p. writable w p"
    and "tocItems = first # others" and "capture e fbn first = Some n"
  shows "fst (downloadPagesAsPDF e w tocItems (Some fbn)) = Inr ()"
proof -
  let ?bookDir = "path_join (path_join (cwd e) (lit ''downloads''))
                    (replace_all (\<lambda>c. \<not> is_alnum c) (lit ''_'') fbn)"
  let ?md = "\<lparr>bookNumber = Some fbn, extractedAt = now e,
              totalPages = int (length tocItems), tableOfContents = tocItems\<rparr>"
  have "\<exists>w1. (if \<not> existsSync w ?bookDir then mkdirSync e w ?bookDir else Inr w) = Inr w1
             \<and> (\<forall>p. writable w1 p)"
    using assms(2) by (auto simp: mkdirSync_def writeFileSync_def put_node_def)
  then obtain w1 where
    w1: "(if \<not> existsSync w ?bookDir then mkdirSync e w ?bookDir else Inr w) = Inr w1"
    and wr1: "\<forall>p. writable w1 p"
    by blast
  have "\<exists>w2. writeFileSync e w1 (path_join ?bookDir (lit ''metadata.json'')) (Metadata_json ?md)
               = Inr w2 \<and> (\<forall>p. writable w2 p)"
    using wr1 by (auto simp: writeFileSync_def put_node_def)
  then obtain w2 where
    w2: "writeFileSync e w1 (path_join ?bookDir (lit ''metadata.json'')) (Metadata_json ?md) = Inr w2"
    and wr2: "\<forall>p. writable w2 p"
    by blast
  have "fst (download_first_then_batches e w2 tocItems ?bookDir fbn) = Inr ()"
    using wr2 assms(3,4)
    by (simp add: download_first_then_batches_def downloadSinglePage_def Let_def put_node_def
        log_event_def)
  then obtain w3 where
    w3: "download_first_then_batches e w2 tocItems ?bookDir fbn = (Inr (), w3)"
    by (cases "download_first_then_batches e w2 tocItems ?bookDir fbn") auto
  have t: "truthy (Some fbn)" using assms(1) by (simp add: truthy_def)
  show ?thesis
    unfolding downloadPagesAsPDF_def Let_def
    by (simp only: t if_True option.case w1 w2 w3 sum.case prod.case fst_conv)
qed

lemma example_toc12_run:
  "fst (downloadPagesAsPDF example_env example_start example_toc12
          (Some (lit ''10.978.8815/415073''))) = Inr ()"
  by (rule downloadPagesAsPDF_succeeds
        [where first = "page_entry 1"
           and others = "map page_entry [2, 3, 4, 5, 6, 7, 8, 9, 10, 11, 12]"
           and n = "\<lparr>stat_size = Some 30000, content = Pdf [Captured_page 1]\<rparr>"])
     (simp_all add: example_start_def example_toc12_def example_env_def page_entry_def lit_simps)

text \<open>
  Claim C4, as amended. For a manifest of twelve entries and the batch size 10, a run of
  \<open>downloadPagesAsPDF\<close> that completes has captured the first entry alone, then a batch
  of the next ten entries, then a batch of the one entry that is left.
\<close>

theorem downloadPagesAsPDF_batches:
  assumes "length tocItems = 12"
    and "fst (downloadPagesAsPDF e w tocItems bookNo) = Inr ()"
  shows "events (snd (downloadPagesAsPDF e w tocItems bookNo))
           = events w @ [Sequential_capture (tocItems ! 0),
                         Concurrent_batch (take 10 (drop 1 tocItems)),
                         Concurrent_batch (drop 11 tocItems)]
       \<and> length (take 10 (drop 1 tocItems)) = 10 \<and> length (drop 11 tocItems) = 1"
proof -
  from downloadPagesAsPDF_Inr [OF assms(2)] obtain fbn bookDir w2 w3 where
    e2: "events w2 = events w"
    and d: "download_first_then_batches e w2 tocItems bookDir fbn = (Inr (), w3)"
    and s: "snd (downloadPagesAsPDF e w tocItems bookNo) = snd (mergeChapterPDFs e w3 bookDir)"
    by blast
  have "events (snd (downloadPagesAsPDF e w tocItems bookNo)) = events w3"
    by (simp add: s mergeChapterPDFs_keeps)
  also have "\<dots> = events (snd (download_first_then_batches e w2 tocItems bookDir fbn))"
    by (simp add: d)
  also have "\<dots> = events w2 @ [Sequential_capture (tocItems ! 0),
                         Concurrent_batch (take 10 (drop 1 tocItems)),
                         Concurrent_batch (drop 11 tocItems)]"
    by (rule first_then_batches_events12 [OF assms(1)]) (simp add: d)
  finally have "events (snd (downloadPagesAsPDF e w tocItems bookNo))
                  = events w @ [Sequential_capture (tocItems ! 0),
                                Concurrent_batch (take 10 (drop 1 tocItems)),
                                Concurrent_batch (drop 11 tocItems)]"
    by (simp add: e2)
  with assms(1) show ?thesis by simp
qed

text \<open>
  The claim as stated fails: on the twelve entries of the example the captures come in
  groups of 1, 10 and 1, not 1, 9 and 2.
\<close>

theorem downloadPagesAsPDF_batches_counterexample:
  "map (\<lambda>ev. length (captures_of ev))
     (events (snd (downloadPagesAsPDF example_env example_start example_toc12
                     (Some (lit ''10.978.8815/415073'')))))
     = [1, 10, 1]
   \<and> map (\<lambda>ev. length (captures_of ev))
       (events (snd (downloadPagesAsPDF example_env example_start example_toc12
                       (Some (lit ''10.978.8815/415073'')))))
     \<noteq> [1, 9, 2]"
proof -
  have len: "length example_toc12 = 12"
    by (simp add: example_toc12_def)
  from downloadPagesAsPDF_Inr [OF example_toc12_run] obtain fbn bookDir w2 w3 where
    e2: "events w2 = events example_start"
    and d: "download_first_then_batches example_env w2 example_toc12 bookDir fbn = (Inr (), w3)"
    and s: "snd (downloadPagesAsPDF example_env example_start example_toc12
                   (Some (lit ''10.978.8815/415073'')))
              = snd (mergeChapterPDFs example_env w3 bookDir)"
    by blast
  have "fst (download_first_then_batches example_env w2 example_toc12 bookDir fbn) = Inr ()"
    by (simp add: d)
  from first_then_batches_events12 [OF len this]
  have ev: "events (snd (downloadPagesAsPDF example_env example_start example_toc12
                           (Some (lit ''10.978.8815/415073''))))
              = events example_start @ [Sequential_capture (example_toc12 ! 0),
                         Concurrent_batch (take 10 (drop 1 example_toc12)),
                         Concurrent_batch (drop 11 example_toc12)]"
    by (simp add: s mergeChapterPDFs_keeps d e2)
  have start: "events example_start = []"
    by (simp add: example_start_def)
  show ?thesis
    by (simp add: ev start captures_of_def len)
qed

text \<open>
  The run on the twelve entries of the example completes, with the first entry, then
  the entries 2 to 11, then the entry 12.
\<close>

theorem downloadPagesAsPDF_batches_witness:
  "length example_toc12 = 12
   \<and> fst (downloadPagesAsPDF example_env example_start example_toc12
            (Some (lit ''10.978.8815/415073''))) = Inr ()
   \<and> events (snd (downloadPagesAsPDF example_env example_start example_toc12
                    (Some (lit ''10.978.8815/415073''))))
     = [Sequential_capture (page_entry 1),
        Concurrent_batch (map page_entry [2, 3, 4, 5, 6, 7, 8, 9, 10, 11]),
        Concurrent_batch [page_entry 12]]"
proof -
  have len: "length example_toc12 = 12"
    by (simp add: example_toc12_def)
  from downloadPagesAsPDF_batches [OF len example_toc12_run]
  have "events (snd (downloadPagesAsPDF example_env example_start example_toc12
                    (Some (lit ''10.978.8815/415073''))))
     = events example_start @ [Sequential_capture (example_toc12 ! 0),
                         Concurrent_batch (take 10 (drop 1 example_toc12)),
                         Concurrent_batch (drop 11 example_toc12)]"
    by simp
  moreover have "events example_start = []"
    by (simp add: example_start_def)
  moreover have "example_toc12 ! 0 = page_entry 1"
    "take 10 (drop 1 example_toc12) = map page_entry [2, 3, 4, 5, 6, 7, 8, 9, 10, 11]"
    "drop 11 example_toc12 = [page_entry 12]"
    by (simp_all add: example_toc12_def)
  ultimately show ?thesis
    using len example_toc12_run by simp
qed

subsection \<open>Retry\<close>

lemma readFileSync_exists: "readFileSync w p = Inr c \<Longrightarrow> existsSync w p"
  by (auto simp: readFileSync_def existsSync_def split: option.splits)

text \<open>
  Claim C7. When the report \<open>output.json\<close> exists in the book directory and its list of
  failed entries is empty, \<open>retryFailedDownloads\<close> returns normally and leaves the
  storage and the trace of browser events exactly as they were: it writes no file,
  starts no browser and captures nothing.
\<close>

theorem retryFailedDownloads_noop:
  assumes "readFileSync w (path_join bookDir (lit ''output.json'')) = Inr (Output_json report)"
    and "failedItems report = []"
  shows "retryFailedDownloads e w bookDir bookId = (Inr (), w)"
  using assms readFileSync_exists [OF assms(1)]
  by (simp add: retryFailedDownloads_def getFailedItems_def Let_def)

lemma batch_loop_extends:
  "\<exists>es. events (batch_loop e d b tocItems i w) = events w @ es"
proof (induction e d b tocItems i w rule: batch_loop.induct)
  case (1 e d b tocItems i w)
  show ?case
  proof (cases "i < length tocItems")
    case True
    let ?batch = "slice i (i + batchSize) tocItems"
    let ?w2 = "foldl (downloadSinglePageWithNewPage e d b)
                 (log_event (Concurrent_batch ?batch) w) ?batch"
    from "1.IH" [OF True refl refl refl] obtain es where
      "events (batch_loop e d b tocItems (i + batchSize) ?w2) = events ?w2 @ es"
      by blast
    with True show ?thesis
      by (simp add: batch_loop_step foldl_newPage_keeps log_event_def)
  next
    case False
    then show ?thesis by (simp add: batch_loop_stop)
  qed
qed

lemma first_then_batches_extends:
  "\<exists>es. events (snd (download_first_then_batches e w tocItems d b)) = events w @ es"
proof (cases tocItems)
  case Nil
  then show ?thesis by (simp add: download_first_then_batches_def)
next
  case (Cons first others)
  obtain r w1 where single: "downloadSinglePage e w first d b = (r, w1)"
    by (cases "downloadSinglePage e w first d b")
  with downloadSinglePage_events [of e w first d b]
  have ev1: "events w1 = events w @ [Sequential_capture first]" by simp
  obtain es where "events (batch_loop e d b (slice 1 (length tocItems) tocItems) 0 w1)
                     = events w1 @ es"
    using batch_loop_extends by blast
  with single ev1 Cons show ?thesis
    by (cases r) (auto simp: download_first_then_batches_def downloadPagesInBatches_def)
qed

text \<open>
  For contrast: with a failed entry in the report and a login that goes through, the
  retry does start a browser session.
\<close>

lemma retryFailedDownloads_launches:
  assumes "readFileSync w (path_join bookDir (lit ''output.json'')) = Inr (Output_json report)"
    and "failedItems report \<noteq> []" and "login e = Login_succeeds"
  shows "\<exists>es. events (snd (retryFailedDownloads e w bookDir bookId))
                = events w @ Launch_browser # es"
proof -
  let ?w2 = "log_event Launch_browser w"
  let ?toc = "retry_tocItems ?w2 bookDir (map docbookId (failedItems report))"
  let ?bn = "if truthy bookId then the bookId else inferred_bookNumber bookDir"
  obtain r w3 where d: "downloadPagesAsPDFForRetry e ?w2 ?toc bookDir ?bn = (r, w3)"
    by (cases "downloadPagesAsPDFForRetry e ?w2 ?toc bookDir ?bn")
  from first_then_batches_extends [of e ?w2 ?toc bookDir ?bn] d obtain es where
    es: "events w3 = events w @ Launch_browser # es"
    by (auto simp: downloadPagesAsPDFForRetry_def log_event_def)
  have "snd (retryFailedDownloads e w bookDir bookId)
          = (case r of Inl err \<Rightarrow> w3 | Inr u \<Rightarrow> log_event Close_browser w3)"
    using assms readFileSync_exists [OF assms(1)] d
    by (cases r)
       (simp_all add: retryFailedDownloads_def getFailedItems_def Let_def
          loginToPandoraCampus_def)
  with es show ?thesis
    by (cases r) (simp_all add: log_event_def)
qed

text \<open>The report of the last example has no failed entry, and the retry changes nothing.\<close>

theorem retryFailedDownloads_noop_witness:
  "retryFailedDownloads example_env example_full example_dir None = (Inr (), example_full)"
proof -
  have "\<exists>r. readFileSync example_full (path_join example_dir (lit ''output.json''))
               = Inr (Output_json r) \<and> failedItems r = []"
    by (simp add: readFileSync_def example_full_def path_join_def example_dir_def lit_simps)
  then obtain r where
    "readFileSync example_full (path_join example_dir (lit ''output.json'')) = Inr (Output_json r)"
    and "failedItems r = []"
    by blast
  then show ?thesis by (rule retryFailedDownloads_noop)
qed

end
